theory Spec2Isabelle
  imports Main "HOL-Library.AList" "HOL-Library.Char_ord" "HOL-Library.List_Lexorder"
    "HOL-Library.Sublist" "HOL-Library.Word"
begin

section \<open>Data model of package log\<close>

text \<open>
  The logging runtime of \<^verbatim>\<open>pkg/infra/log\<close>: a process-wide manager (\<^verbatim>\<open>root\<close>) that owns
  the root logger, a name-indexed registry of \<^verbatim>\<open>*ConcreteLogger\<close> objects and the list of
  sink descriptors last applied, together with the two package-level lists of handlers
  that need closing and reloading.

  Pointers to \<^verbatim>\<open>ConcreteLogger\<close> are addresses into an explicit store (a list; a new object
  is appended, so its address is the length of the store before the allocation). The
  mutexes are not modelled: every operation runs to completion on its own.
\<close>

subsection \<open>Values, levels, errors\<close>

text \<open>Severity values and filter options of package \<^verbatim>\<open>level\<close>, as far as this file uses them.\<close>

datatype level_value = DebugValue | InfoValue | WarnValue | ErrorValue

datatype level_option = AllowDebug | AllowInfo | AllowWarn | AllowError

text \<open>Go \<^verbatim>\<open>error\<close> values: a message, possibly wrapped (\<^verbatim>\<open>errutil.Wrapf\<close>).\<close>

datatype go_error = Errorf string | Wrapf go_error string

text \<open>
  The \<^verbatim>\<open>interface{}\<close> values that occur as log keys and values. \<^verbatim>\<open>LevelKeyV\<close> is
  \<^verbatim>\<open>level.Key()\<close>, \<^verbatim>\<open>LevelV v\<close> one of \<^verbatim>\<open>level.DebugValue()\<close> ... \<^verbatim>\<open>level.ErrorValue()\<close>.
\<close>

datatype iface = StrV string | NilV | IntV int | ErrV go_error | LevelKeyV | LevelV level_value

subsection \<open>Sinks and go-kit loggers\<close>

text \<open>The three formatters \<^verbatim>\<open>getLogFormat\<close> chooses between, and the two standard streams.\<close>

datatype log_format = TerminalLogger | LogfmtLogger | JSONLogger

datatype stream = Stdout | Stderr

record FileLogWriter =
  Filename :: string
  Format :: log_format
  Rotate :: bool
  Maxlines :: int
  Maxsize :: "64 word"
  Daily :: bool
  Maxdays :: int

text \<open>
  A handler that owns a resource. \<^verbatim>\<open>NewSyslog(sec, format)\<close> is not part of the file; the
  handler it returns is identified by the section it was given (key to string value) and
  the format.
\<close>

datatype handler = FileHandler FileLogWriter | SysLogHandler "string \<Rightarrow> string" log_format

text \<open>
  Values of the interface \<^verbatim>\<open>gokitlog.Logger\<close>, as the terms the code builds them from:
  \<^verbatim>\<open>format(os.Stdout)\<close>, a handler used as a logger, \<^verbatim>\<open>level.NewFilter(l, opt)\<close>,
  \<^verbatim>\<open>&compositeLogger{loggers: ls}\<close> and \<^verbatim>\<open>gokitlog.With(l, ctx...)\<close>. The constructors are
  left uninterpreted: the library calls are recorded, not evaluated.
\<close>

datatype gokit_logger =
    FormatLogger log_format stream
  | HandlerLogger handler
  | NewFilter gokit_logger level_option
  | CompositeLogger "gokit_logger list"
  | With gokit_logger "iface list"

subsection \<open>Loggers, descriptors, manager, package state\<close>

record ConcreteLogger =
  ctx :: "iface list"
  logger :: gokit_logger

record LogWithFilters =
  val :: gokit_logger
  filters :: "string \<rightharpoonup> level_option"
  maxLevel :: level_option

text \<open>
  \<^verbatim>\<open>logManager\<close> embeds a \<^verbatim>\<open>*ConcreteLogger\<close> (field \<open>concrete\<close>, an address). The registry
  \<^verbatim>\<open>loggersByName\<close> is an association list read with \<open>map_of\<close> and written with
  \<open>AList.update\<close>; its order is never observed (\<^verbatim>\<open>initialize\<close> sorts the keys).
\<close>

record logManager =
  concrete :: nat
  loggersByName :: "(string \<times> nat) list"
  logFilters :: "LogWithFilters list"

datatype call = CloseCall handler | ReloadCall handler

text \<open>
  The package state: the store of \<^verbatim>\<open>ConcreteLogger\<close> objects, \<^verbatim>\<open>root\<close>, the two handler
  lists, and three traces of what the package did to the outside: records handed to a
  delegate (\<open>written\<close>: the delegate and the key/values of each \<^verbatim>\<open>Log\<close> call), lines
  printed by the standard \<^verbatim>\<open>log\<close> package (\<open>stdlog\<close>), and the \<^verbatim>\<open>Close\<close>/\<^verbatim>\<open>Reload\<close> calls
  made on handlers (\<open>calls\<close>).
\<close>

record pkg_state =
  heap :: "ConcreteLogger list"
  root :: logManager
  loggersToClose :: "handler list"
  loggersToReload :: "handler list"
  written :: "(gokit_logger \<times> iface list) list"
  stdlog :: "iface list list"
  calls :: "call list"

text \<open>
  What the package asks of the outside: the terminal check, the result of a delegate's
  \<^verbatim>\<open>Log\<close>, of a handler's \<^verbatim>\<open>Close\<close> and \<^verbatim>\<open>Reload\<close> (which may depend on the calls made so
  far), of \<^verbatim>\<open>os.MkdirAll\<close> and of \<^verbatim>\<open>fileHandler.Init\<close>, and the string and path functions of
  the standard library and of \<^verbatim>\<open>util\<close>.
\<close>

record env =
  IsTerminal :: bool
  LogErr :: "gokit_logger \<Rightarrow> iface list \<Rightarrow> go_error option"
  CloseErr :: "call list \<Rightarrow> handler \<Rightarrow> go_error option"
  ReloadErr :: "call list \<Rightarrow> handler \<Rightarrow> go_error option"
  MkdirAll :: "string \<Rightarrow> go_error option"
  FileInit :: "FileLogWriter \<Rightarrow> go_error option"
  TrimSpace :: "string \<Rightarrow> string"
  ToLower :: "string \<Rightarrow> string"
  SplitString :: "string \<Rightarrow> string list"
  FilepathJoin :: "string \<Rightarrow> string \<Rightarrow> string"
  FilepathDir :: "string \<Rightarrow> string"
  ParseBool :: "string \<Rightarrow> bool option"
  ParseInt :: "string \<Rightarrow> int option"

text \<open>
  The parsed configuration (\<^verbatim>\<open>*ini.File\<close>): \<open>GetSectionErr name\<close> is the error of
  \<^verbatim>\<open>cfg.GetSection(name)\<close> (\<open>None\<close> when the section exists), \<open>KeyString sec key\<close> is
  \<^verbatim>\<open>cfg.Section(sec).Key(key).String()\<close> (empty when the key is absent).
\<close>

record ini_File =
  GetSectionErr :: "string \<Rightarrow> go_error option"
  KeyString :: "string \<Rightarrow> string \<Rightarrow> string"

section \<open>The manager\<close>

definition getLogFormat :: "env \<Rightarrow> string \<Rightarrow> log_format" where
  "getLogFormat E format =
     (if format = ''console'' then (if IsTerminal E then TerminalLogger else LogfmtLogger)
      else if format = ''text'' then LogfmtLogger
      else if format = ''json'' then JSONLogger
      else LogfmtLogger)"

definition newConcreteLogger :: "gokit_logger \<Rightarrow> iface list \<Rightarrow> ConcreteLogger" where
  "newConcreteLogger lg cx =
     (if cx = [] then \<lparr>ctx = [], logger = lg\<rparr> else \<lparr>ctx = cx, logger = With lg cx\<rparr>)"

text \<open>\<^verbatim>\<open>&ConcreteLogger{...}\<close>: the new object gets the next free address.\<close>

definition alloc :: "ConcreteLogger \<Rightarrow> pkg_state \<Rightarrow> nat \<times> pkg_state" where
  "alloc cl s = (length (heap s), s\<lparr>heap := heap s @ [cl]\<rparr>)"

text \<open>\<^verbatim>\<open>init()\<close> with \<^verbatim>\<open>newManager\<close>: a console sink on stderr at info, an empty registry.\<close>

definition init_state :: "env \<Rightarrow> pkg_state" where
  "init_state E =
     \<lparr>heap = [newConcreteLogger
                (NewFilter (FormatLogger (getLogFormat E ''console'') Stderr) AllowInfo) []],
      root = \<lparr>concrete = 0, loggersByName = [], logFilters = []\<rparr>,
      loggersToClose = [], loggersToReload = [],
      written = [], stdlog = [], calls = []\<rparr>"

definition ConcreteLogger_SetLogger :: "nat \<Rightarrow> gokit_logger \<Rightarrow> pkg_state \<Rightarrow> pkg_state" where
  "ConcreteLogger_SetLogger cl lg s =
     s\<lparr>heap := (heap s)[cl := (heap s ! cl)\<lparr>logger := With lg (ctx (heap s ! cl))\<rparr>]\<rparr>"

definition ConcreteLogger_GetLogger :: "nat \<Rightarrow> pkg_state \<Rightarrow> gokit_logger" where
  "ConcreteLogger_GetLogger cl s = logger (heap s ! cl)"

text \<open>\<^verbatim>\<open>cl.logger.Log(keyvals...)\<close>: the record goes to the delegate installed now.\<close>

definition ConcreteLogger_Log ::
  "env \<Rightarrow> nat \<Rightarrow> iface list \<Rightarrow> pkg_state \<Rightarrow> go_error option \<times> pkg_state" where
  "ConcreteLogger_Log E cl keyvals s =
     (let lg = logger (heap s ! cl)
      in (LogErr E lg keyvals, s\<lparr>written := written s @ [(lg, keyvals)]\<rparr>))"

definition logManager_Log ::
  "env \<Rightarrow> iface list \<Rightarrow> pkg_state \<Rightarrow> go_error option \<times> pkg_state" where
  "logManager_Log E args s =
     (case ConcreteLogger_Log E (concrete (root s)) args s of
        (None, s1) \<Rightarrow> (None, s1)
      | (Some err, s1) \<Rightarrow>
          (None, s1\<lparr>stdlog := stdlog s1 @ [[StrV ''Logging error'', StrV ''error'', ErrV err]]\<rparr>))"

text \<open>
  Modelled from the spec: \<^verbatim>\<open>level.Error\<close> of package \<^verbatim>\<open>level\<close>, which is not among the
  sources. \<^verbatim>\<open>level.Error(root).Log(kvs...)\<close> logs through the root logger at error
  severity: the severity key and value come first, then the caller's pairs. Every caller
  discards the returned error.
\<close>

definition level_Error_Log :: "env \<Rightarrow> iface list \<Rightarrow> pkg_state \<Rightarrow> pkg_state" where
  "level_Error_Log E kvs s = snd (logManager_Log E (LevelKeyV # LevelV ErrorValue # kvs) s)"

text \<open>
  The second loop of \<^verbatim>\<open>initialize\<close>, over the sorted names of the registry. A name comes
  from the registry's own keys, so the lookup finds it.
\<close>

definition initialize_named :: "LogWithFilters list \<Rightarrow> string \<Rightarrow> pkg_state \<Rightarrow> pkg_state" where
  "initialize_named loggers name s =
     (let ctxLoggers =
            map (\<lambda>lw. case filters lw name of
                        None \<Rightarrow> NewFilter (val lw) (maxLevel lw)
                      | Some filterLevel \<Rightarrow> NewFilter (val lw) filterLevel) loggers
      in case map_of (loggersByName (root s)) name of
           Some cl \<Rightarrow> ConcreteLogger_SetLogger cl (CompositeLogger ctxLoggers) s
         | None \<Rightarrow> s)"

definition initialize :: "LogWithFilters list \<Rightarrow> pkg_state \<Rightarrow> pkg_state" where
  "initialize loggers s =
     (let defaultLoggers = map (\<lambda>lw. NewFilter (val lw) (maxLevel lw)) loggers;
          s1 = ConcreteLogger_SetLogger (concrete (root s)) (CompositeLogger defaultLoggers) s;
          s2 = s1\<lparr>root := (root s1)\<lparr>logFilters := loggers\<rparr>\<rparr>;
          names = sort (map fst (loggersByName (root s2)))
      in fold (initialize_named loggers) names s2)"

text \<open>
  The loop of \<^verbatim>\<open>logManager.New\<close> that fills a fresh composite: the range variable is a
  copy, so \<^verbatim>\<open>lm.logFilters\<close> itself is not changed.
\<close>

fun New_loop :: "string \<Rightarrow> LogWithFilters list \<Rightarrow> gokit_logger list \<Rightarrow> gokit_logger list" where
  "New_loop loggerName [] acc = acc"
| "New_loop loggerName (logWithFilter # rest) acc =
     (case filters logWithFilter loggerName of
        Some filterLevel \<Rightarrow>
          New_loop loggerName rest (acc @ [NewFilter (val logWithFilter) filterLevel])
      | None \<Rightarrow>
          New_loop loggerName rest
            (acc @ [NewFilter (val logWithFilter) (maxLevel logWithFilter)]))"

fun logManager_New :: "iface list \<Rightarrow> pkg_state \<Rightarrow> nat \<times> pkg_state" where
  "logManager_New [] s = (concrete (root s), s)"
| "logManager_New (StrV loggerName # rest) s =
     (case map_of (loggersByName (root s)) loggerName of
        Some cl \<Rightarrow> (cl, s)
      | None \<Rightarrow>
          (let cx = StrV ''logger'' # StrV loggerName # rest;
               base = (if logFilters (root s) = [] then logger (heap s ! concrete (root s))
                       else CompositeLogger (New_loop loggerName (logFilters (root s)) []));
               (cl, s1) = alloc (newConcreteLogger base cx) s
           in (cl, s1\<lparr>root := (root s1)\<lparr>loggersByName :=
                         AList.update loggerName cl (loggersByName (root s1))\<rparr>\<rparr>)))"
| "logManager_New (other # rest) s = (concrete (root s), s)"

text \<open>
  The loop of \<^verbatim>\<open>ConcreteLogger.New\<close> over the pairs of \<^verbatim>\<open>cl.ctx\<close>. The context has even
  length when the loop runs (an odd one was padded with \<^verbatim>\<open>nil\<close> just before).
\<close>

fun keyvals_loop :: "iface list \<Rightarrow> iface list \<Rightarrow> iface list" where
  "keyvals_loop (k # v # rest) keyvals =
     (if k = StrV ''logger'' then keyvals_loop rest keyvals
      else keyvals_loop rest (keyvals @ [k, v]))"
| "keyvals_loop rest keyvals = keyvals"

definition ConcreteLogger_New :: "nat \<Rightarrow> iface list \<Rightarrow> pkg_state \<Rightarrow> nat \<times> pkg_state" where
  "ConcreteLogger_New cl cx s =
     (let s0 = (if cx = [] then snd (logManager_New [] s) else s);
          s1 = (if length (ctx (heap s0 ! cl)) mod 2 = 1
                then s0\<lparr>heap := (heap s0)[cl := (heap s0 ! cl)\<lparr>ctx := ctx (heap s0 ! cl) @ [NilV]\<rparr>]\<rparr>
                else s0);
          keyvals = keyvals_loop (ctx (heap s1 ! cl)) []
      in logManager_New (keyvals @ cx) s1)"

section \<open>Levels and filters\<close>

definition logLevels :: "string \<rightharpoonup> level_option" where
  "logLevels = map_of
     [(''trace'', AllowDebug), (''debug'', AllowDebug), (''info'', AllowInfo),
      (''warn'', AllowWarn), (''error'', AllowError), (''critical'', AllowError)]"

definition getLogLevelFromString :: "env \<Rightarrow> string \<Rightarrow> pkg_state \<Rightarrow> level_option \<times> pkg_state" where
  "getLogLevelFromString E levelName s =
     (case logLevels levelName of
        None \<Rightarrow>
          (AllowError,
           level_Error_Log E [StrV ''Unknown log level'', StrV ''level'', StrV levelName] s)
      | Some loglevel \<Rightarrow> (loglevel, s))"

text \<open>\<^verbatim>\<open>Key.MustString(default)\<close> of the ini library: the default replaces an empty value.\<close>

definition MustString :: "string \<Rightarrow> string \<Rightarrow> string" where
  "MustString v d = (if v = [] then d else v)"

definition MustBool :: "env \<Rightarrow> string \<Rightarrow> bool \<Rightarrow> bool" where
  "MustBool E v d = (case ParseBool E v of Some b \<Rightarrow> b | None \<Rightarrow> d)"

definition MustInt :: "env \<Rightarrow> string \<Rightarrow> int \<Rightarrow> int" where
  "MustInt E v d = (case ParseInt E v of Some i \<Rightarrow> i | None \<Rightarrow> d)"

definition getLogLevelFromConfig ::
  "env \<Rightarrow> string \<Rightarrow> string \<Rightarrow> ini_File \<Rightarrow> pkg_state \<Rightarrow> string \<times> level_option \<times> pkg_state" where
  "getLogLevelFromConfig E key defaultName cfg s =
     (let levelName = ToLower E (MustString (KeyString cfg key ''level'') defaultName);
          (lv, s1) = getLogLevelFromString E levelName s
      in (levelName, lv, s1))"

text \<open>\<^verbatim>\<open>strings.Split(s, sep)\<close> for a one-character separator.\<close>

fun strings_Split :: "char \<Rightarrow> string \<Rightarrow> string list" where
  "strings_Split sep [] = [[]]"
| "strings_Split sep (c # cs) =
     (if c = sep then [] # strings_Split sep cs
      else (case strings_Split sep cs of
              p # ps \<Rightarrow> (c # p) # ps
            | [] \<Rightarrow> [[c]]))"

fun getFilters_loop ::
  "env \<Rightarrow> string list \<Rightarrow> (string \<rightharpoonup> level_option) \<Rightarrow> pkg_state
     \<Rightarrow> (string \<rightharpoonup> level_option) \<times> pkg_state" where
  "getFilters_loop E [] filterMap s = (filterMap, s)"
| "getFilters_loop E (filterStr # rest) filterMap s =
     (let parts = strings_Split CHR '':'' filterStr
      in if length parts > 1
         then (let (lv, s1) = getLogLevelFromString E (parts ! 1) s
               in getFilters_loop E rest (filterMap(parts ! 0 \<mapsto> lv)) s1)
         else getFilters_loop E rest filterMap s)"

definition getFilters ::
  "env \<Rightarrow> string list \<Rightarrow> pkg_state \<Rightarrow> (string \<rightharpoonup> level_option) \<times> pkg_state" where
  "getFilters E filterStrArray s = getFilters_loop E filterStrArray Map.empty s"

section \<open>Close and Reload\<close>

fun Close_loop ::
  "env \<Rightarrow> handler list \<Rightarrow> go_error option \<Rightarrow> call list \<Rightarrow> go_error option \<times> call list" where
  "Close_loop E [] err cs = (err, cs)"
| "Close_loop E (h # hs) err cs =
     (let e = CloseErr E cs h
      in Close_loop E hs (if e \<noteq> None \<and> err = None then e else err) (cs @ [CloseCall h]))"

definition Close :: "env \<Rightarrow> pkg_state \<Rightarrow> go_error option \<times> pkg_state" where
  "Close E s =
     (let (err, cs) = Close_loop E (loggersToClose s) None (calls s)
      in (err, s\<lparr>loggersToClose := [], calls := cs\<rparr>))"

fun Reload_loop :: "env \<Rightarrow> handler list \<Rightarrow> call list \<Rightarrow> go_error option \<times> call list" where
  "Reload_loop E [] cs = (None, cs)"
| "Reload_loop E (h # hs) cs =
     (case ReloadErr E cs h of
        Some err \<Rightarrow> (Some err, cs @ [ReloadCall h])
      | None \<Rightarrow> Reload_loop E hs (cs @ [ReloadCall h]))"

definition Reload :: "env \<Rightarrow> pkg_state \<Rightarrow> go_error option \<times> pkg_state" where
  "Reload E s =
     (let (err, cs) = Reload_loop E (loggersToReload s) (calls s)
      in (err, s\<lparr>calls := cs\<rparr>))"

section \<open>Applying a configuration\<close>

text \<open>
  How one round of the loop over \<^verbatim>\<open>modes\<close> ends: it goes on to the next mode with the
  descriptors collected so far, \<^verbatim>\<open>ReadLoggingConfig\<close> returns an error, or it panics (the
  mode of the uninitialised handler is kept).
\<close>

datatype mode_result =
    Proceed "LogWithFilters list" pkg_state
  | Abort go_error pkg_state
  | Panicked string pkg_state

text \<open>
  The end of a round, from the check of \<^verbatim>\<open>handler.val\<close> on: default filters are joined
  under the mode's own (a key of the mode's filters keeps its value), and the descriptor
  is appended.
\<close>

definition appendHandler ::
  "string \<Rightarrow> gokit_logger option \<Rightarrow> (string \<rightharpoonup> level_option) \<Rightarrow> (string \<rightharpoonup> level_option)
     \<Rightarrow> level_option \<Rightarrow> LogWithFilters list \<Rightarrow> pkg_state \<Rightarrow> mode_result" where
  "appendHandler mode handler_val defaultFilters modeFilters leveloption configLoggers s =
     (case handler_val of
        None \<Rightarrow> Panicked mode s
      | Some v \<Rightarrow>
          Proceed (configLoggers @
                     [\<lparr>val = v, filters = defaultFilters ++ modeFilters, maxLevel = leveloption\<rparr>]) s)"

text \<open>
  The file handler of the \<^verbatim>\<open>"file"\<close> case: \<^verbatim>\<open>NewFileWriter()\<close> with its fields set from the
  section. \<^verbatim>\<open>1 << uint(n)\<close> is the shift of a 64-bit integer by \<open>n\<close> read as unsigned; a shift
  of 64 or more gives 0.
\<close>

definition configureFileWriter ::
  "env \<Rightarrow> ini_File \<Rightarrow> string \<Rightarrow> string \<Rightarrow> log_format \<Rightarrow> FileLogWriter" where
  "configureFileWriter E cfg sec fileName format =
     \<lparr>Filename = fileName, Format = format,
      Rotate = MustBool E (KeyString cfg sec ''log_rotate'') True,
      Maxlines = MustInt E (KeyString cfg sec ''max_lines'') 1000000,
      Maxsize = push_bit (nat (MustInt E (KeyString cfg sec ''max_size_shift'') 28 mod 2 ^ 64)) 1,
      Daily = MustBool E (KeyString cfg sec ''daily_rotate'') True,
      Maxdays = MustInt E (KeyString cfg sec ''max_days'') 7\<rparr>"

definition modeLoopBody ::
  "env \<Rightarrow> string \<Rightarrow> ini_File \<Rightarrow> string \<Rightarrow> (string \<rightharpoonup> level_option) \<Rightarrow> string
     \<Rightarrow> LogWithFilters list \<Rightarrow> pkg_state \<Rightarrow> mode_result" where
  "modeLoopBody E logsPath cfg defaultLevelName defaultFilters mode0 configLoggers s =
     (let mode = TrimSpace E mode0;
          sec = ''log.'' @ mode
      in case GetSectionErr cfg sec of
           Some err \<Rightarrow>
             Abort (Wrapf err (''failed to get config section log.'' @ mode))
               (level_Error_Log E [StrV ''Unknown log mode'', StrV ''mode'', StrV mode] s)
         | None \<Rightarrow>
             (let (levelName, leveloption, s1) = getLogLevelFromConfig E sec defaultLevelName cfg s;
                  (modeFilters, s2) = getFilters E (SplitString E (KeyString cfg sec ''filters'')) s1;
                  format = getLogFormat E (MustString (KeyString cfg sec ''format'') [])
              in if mode = ''console'' then
                   appendHandler mode (Some (FormatLogger format Stdout))
                     defaultFilters modeFilters leveloption configLoggers s2
                 else if mode = ''file'' then
                   (let fileName = MustString (KeyString cfg sec ''file_name'')
                                     (FilepathJoin E logsPath ''grafana.log'');
                        dpath = FilepathDir E fileName
                    in case MkdirAll E dpath of
                         Some err \<Rightarrow>
                           Proceed configLoggers
                             (level_Error_Log E
                                [StrV ''Failed to create directory'', StrV ''dpath'', StrV dpath,
                                 StrV ''err'', ErrV err] s2)
                       | None \<Rightarrow>
                           (let fileHandler = configureFileWriter E cfg sec fileName format
                            in case FileInit E fileHandler of
                                 Some err \<Rightarrow>
                                   Proceed configLoggers
                                     (level_Error_Log E
                                        [StrV ''Failed to initialize file handler'',
                                         StrV ''dpath'', StrV dpath, StrV ''err'', ErrV err] s2)
                               | None \<Rightarrow>
                                   appendHandler mode (Some (HandlerLogger (FileHandler fileHandler)))
                                     defaultFilters modeFilters leveloption configLoggers
                                     (s2\<lparr>loggersToClose :=
                                           loggersToClose s2 @ [FileHandler fileHandler],
                                         loggersToReload :=
                                           loggersToReload s2 @ [FileHandler fileHandler]\<rparr>)))
                 else if mode = ''syslog'' then
                   (let sysLogHandler = SysLogHandler (KeyString cfg sec) format
                    in appendHandler mode (Some (HandlerLogger sysLogHandler))
                         defaultFilters modeFilters leveloption configLoggers
                         (s2\<lparr>loggersToClose := loggersToClose s2 @ [sysLogHandler]\<rparr>))
                 else
                   appendHandler mode None
                     defaultFilters modeFilters leveloption configLoggers s2))"

fun modes_loop ::
  "env \<Rightarrow> string \<Rightarrow> ini_File \<Rightarrow> string \<Rightarrow> (string \<rightharpoonup> level_option) \<Rightarrow> string list
     \<Rightarrow> LogWithFilters list \<Rightarrow> pkg_state \<Rightarrow> mode_result" where
  "modes_loop E logsPath cfg defaultLevelName defaultFilters [] configLoggers s =
     Proceed configLoggers s"
| "modes_loop E logsPath cfg defaultLevelName defaultFilters (mode # rest) configLoggers s =
     (case modeLoopBody E logsPath cfg defaultLevelName defaultFilters mode configLoggers s of
        Proceed configLoggers1 s1 \<Rightarrow>
          modes_loop E logsPath cfg defaultLevelName defaultFilters rest configLoggers1 s1
      | Abort err s1 \<Rightarrow> Abort err s1
      | Panicked m s1 \<Rightarrow> Panicked m s1)"

text \<open>What a call of \<^verbatim>\<open>ReadLoggingConfig\<close> does: it returns its error (or nil), or panics.\<close>

datatype outcome = Returned "go_error option" | Panic string

definition ReadLoggingConfig ::
  "env \<Rightarrow> string list \<Rightarrow> string \<Rightarrow> ini_File \<Rightarrow> pkg_state \<Rightarrow> outcome \<times> pkg_state" where
  "ReadLoggingConfig E modes logsPath cfg s =
     (case Close E s of
        (Some err, s0) \<Rightarrow> (Returned (Some err), s0)
      | (None, s0) \<Rightarrow>
          (let (defaultLevelName, lv, s1) = getLogLevelFromConfig E ''log'' ''info'' cfg s0;
               (defaultFilters, s2) =
                  getFilters E (SplitString E (KeyString cfg ''log'' ''filters'')) s1
           in case modes_loop E logsPath cfg defaultLevelName defaultFilters modes [] s2 of
                Abort err s3 \<Rightarrow> (Returned (Some err), s3)
              | Panicked m s3 \<Rightarrow> (Panic m, s3)
              | Proceed configLoggers s3 \<Rightarrow>
                  (Returned None,
                   if length configLoggers > 0 then initialize configLoggers s3 else s3)))"

section \<open>The specification's words\<close>

text \<open>
  Modelled from the spec: the severity filter of package \<^verbatim>\<open>level\<close>, which is not among
  the sources. ``\<open>allow(level, threshold)\<close> is true iff \<open>level \<ge> threshold\<close>'', over the order
  debug, info, warn, error.
\<close>

fun ordinal :: "level_value \<Rightarrow> nat" where
  "ordinal DebugValue = 0"
| "ordinal InfoValue = 1"
| "ordinal WarnValue = 2"
| "ordinal ErrorValue = 3"

fun threshold_ordinal :: "level_option \<Rightarrow> nat" where
  "threshold_ordinal AllowDebug = 0"
| "threshold_ordinal AllowInfo = 1"
| "threshold_ordinal AllowWarn = 2"
| "threshold_ordinal AllowError = 3"

definition allow :: "level_value \<Rightarrow> level_option \<Rightarrow> bool" where
  "allow lv threshold = (ordinal lv \<ge> threshold_ordinal threshold)"

text \<open>
  The filter precedence in the specification's words: ``if the descriptor's override map
  contains the requested name, use that threshold; else use the descriptor's own default
  threshold''.
\<close>

definition spec_threshold :: "LogWithFilters \<Rightarrow> string \<Rightarrow> level_option" where
  "spec_threshold lw name =
     (if name \<in> dom (filters lw) then the (filters lw name) else maxLevel lw)"

text \<open>
  The registry is well formed: the root object and every registered object are in the
  store, no registered object is the root object, and no two names share an object.
\<close>

definition wf_registry :: "pkg_state \<Rightarrow> bool" where
  "wf_registry s =
     (concrete (root s) < length (heap s) \<and>
      list_all (\<lambda>(name, cl). cl < length (heap s) \<and> cl \<noteq> concrete (root s))
        (loggersByName (root s)) \<and>
      distinct (map fst (loggersByName (root s))) \<and>
      distinct (map snd (loggersByName (root s))))"

text \<open>The operations on the registry, for statements about any later sequence of them.\<close>

datatype op = Initialize "LogWithFilters list" | RootNew "iface list" | Derive nat "iface list"

fun run_op :: "op \<Rightarrow> pkg_state \<Rightarrow> pkg_state" where
  "run_op (Initialize loggers) s = initialize loggers s"
| "run_op (RootNew cx) s = snd (logManager_New cx s)"
| "run_op (Derive cl cx) s = snd (ConcreteLogger_New cl cx s)"

text \<open>``The first error encountered (or nil if none)'': the first result that is an error.\<close>

fun first_error :: "go_error option list \<Rightarrow> go_error option" where
  "first_error [] = None"
| "first_error (Some e # rs) = Some e"
| "first_error (None # rs) = first_error rs"

text \<open>
  No pair of a context has the key \<^verbatim>\<open>"logger"\<close> (keys are the elements at even positions).
\<close>

fun has_logger_key :: "iface list \<Rightarrow> bool" where
  "has_logger_key (k # v # rest) = (k = StrV ''logger'' \<or> has_logger_key rest)"
| "has_logger_key rest = False"

text \<open>
  Nothing but logging happened between \<open>s\<close> and \<open>s'\<close>: the store, the manager, the handler
  lists and the handler calls are the same, and records were only added to \<open>written\<close>.
\<close>

definition only_logs :: "pkg_state \<Rightarrow> pkg_state \<Rightarrow> bool" where
  "only_logs s s' =
     (heap s' = heap s \<and> root s' = root s \<and>
      loggersToClose s' = loggersToClose s \<and> loggersToReload s' = loggersToReload s \<and>
      calls s' = calls s \<and> prefix (written s) (written s'))"

text \<open>A mode that has its section and is one of the three kinds with a handler.\<close>

definition known_mode :: "env \<Rightarrow> ini_File \<Rightarrow> string \<Rightarrow> bool" where
  "known_mode E cfg mode =
     (GetSectionErr cfg (''log.'' @ TrimSpace E mode) = None \<and>
      (TrimSpace E mode = ''console'' \<or> TrimSpace E mode = ''file'' \<or>
       TrimSpace E mode = ''syslog''))"



text \<open>
  The two states hold the same configuration: they differ at most in the traces of
  written records and printed lines.
\<close>

definition same_config :: "pkg_state \<Rightarrow> pkg_state \<Rightarrow> bool" where
  "same_config s t =
     (heap t = heap s \<and> root t = root s \<and>
      loggersToClose t = loggersToClose s \<and> loggersToReload t = loggersToReload s \<and>
      calls t = calls s)"

text \<open>Two rounds end the same way, with the same descriptors and the same configuration.\<close>

fun same_result :: "mode_result \<Rightarrow> mode_result \<Rightarrow> bool" where
  "same_result (Proceed c s) (Proceed d t) = (c = d \<and> same_config s t)"
| "same_result (Abort e s) (Abort f t) = (e = f \<and> same_config s t)"
| "same_result (Panicked m s) (Panicked n t) = (m = n \<and> same_config s t)"
| "same_result r r' = False"

fun result_state :: "mode_result \<Rightarrow> pkg_state" where
  "result_state (Proceed c s) = s"
| "result_state (Abort e s) = s"
| "result_state (Panicked m s) = s"

text \<open>
  The sink a mode contributes, in the specification's words: the console, file or syslog
  writer of the mode, and none for a file sink whose directory cannot be created or whose
  handler cannot be initialised (``that single sink is skipped'').
\<close>

definition sink_of_mode :: "env \<Rightarrow> string \<Rightarrow> ini_File \<Rightarrow> string \<Rightarrow> gokit_logger option" where
  "sink_of_mode E logsPath cfg mode0 =
     (let mode = TrimSpace E mode0;
          sec = ''log.'' @ mode;
          format = getLogFormat E (MustString (KeyString cfg sec ''format'') []);
          fileName = MustString (KeyString cfg sec ''file_name'')
                       (FilepathJoin E logsPath ''grafana.log'')
      in if mode = ''console'' then Some (FormatLogger format Stdout)
         else if mode = ''file'' then
           (if MkdirAll E (FilepathDir E fileName) = None \<and>
               FileInit E (configureFileWriter E cfg sec fileName format) = None
            then Some (HandlerLogger (FileHandler (configureFileWriter E cfg sec fileName format)))
            else None)
         else if mode = ''syslog'' then Some (HandlerLogger (SysLogHandler (KeyString cfg sec) format))
         else None)"

section \<open>A concrete configuration\<close>

text \<open>
  The scenario of the specification's testable properties: a console sink at info, a file
  sink at warn whose filters hold \<^verbatim>\<open>db:debug\<close>, and a logger named \<^verbatim>\<open>db\<close> requested from the
  package in its initial state. In \<open>example_env\<close> nothing outside fails.
\<close>

definition example_env :: env where
  "example_env =
     \<lparr>IsTerminal = False,
      LogErr = (\<lambda>lg keyvals. None),
      CloseErr = (\<lambda>cs h. None),
      ReloadErr = (\<lambda>cs h. None),
      MkdirAll = (\<lambda>dpath. None),
      FileInit = (\<lambda>w. None),
      TrimSpace = (\<lambda>str. str),
      ToLower = (\<lambda>str. str),
      SplitString = (\<lambda>str. if str = [] then [] else [str]),
      FilepathJoin = (\<lambda>dir file. dir @ ''/'' @ file),
      FilepathDir = (\<lambda>path. ''logs''),
      ParseBool = (\<lambda>str. None),
      ParseInt = (\<lambda>str. None)\<rparr>"

text \<open>The same surroundings, except that no directory can be created.\<close>

definition readonly_env :: env where
  "readonly_env = example_env\<lparr>MkdirAll := (\<lambda>dpath. Some (Errorf ''permission denied''))\<rparr>"

text \<open>
  A configuration with the sections \<^verbatim>\<open>log\<close>, \<^verbatim>\<open>log.console\<close> and \<^verbatim>\<open>log.file\<close> and no key set.
\<close>

definition example_cfg :: ini_File where
  "example_cfg =
     \<lparr>GetSectionErr =
        (\<lambda>name. if name = ''log'' \<or> name = ''log.console'' \<or> name = ''log.file'' then None
                else Some (Errorf ''section does not exist'')),
      KeyString = (\<lambda>sec key. [])\<rparr>"


definition console_sink :: LogWithFilters where
  "console_sink =
     \<lparr>val = FormatLogger LogfmtLogger Stdout, filters = Map.empty, maxLevel = AllowInfo\<rparr>"

definition file_writer :: FileLogWriter where
  "file_writer =
     \<lparr>Filename = ''logs/grafana.log'', Format = LogfmtLogger, Rotate = True,
      Maxlines = 1000000, Maxsize = push_bit 28 1, Daily = True, Maxdays = 7\<rparr>"

definition file_sink :: LogWithFilters where
  "file_sink =
     \<lparr>val = HandlerLogger (FileHandler file_writer),
      filters = [''db'' \<mapsto> AllowDebug], maxLevel = AllowWarn\<rparr>"

text \<open>
  Surroundings in which the file handler can be neither closed nor reloaded, and a state
  that holds the file handler and a syslog handler in both lists.
\<close>

definition syslog_handler :: handler where
  "syslog_handler = SysLogHandler (\<lambda>key. []) LogfmtLogger"

definition stuck_env :: env where
  "stuck_env = example_env
     \<lparr>CloseErr := (\<lambda>cs h. if h = FileHandler file_writer
                          then Some (Errorf ''file already closed'') else None),
      ReloadErr := (\<lambda>cs h. if h = FileHandler file_writer
                           then Some (Errorf ''rotation stuck'') else None)\<rparr>"

definition handlers_state :: pkg_state where
  "handlers_state = (init_state example_env)
     \<lparr>loggersToClose := [FileHandler file_writer, syslog_handler],
      loggersToReload := [FileHandler file_writer, syslog_handler]\<rparr>"

definition db_state :: pkg_state where
  "db_state = snd (logManager_New [StrV ''db''] (init_state example_env))"

section \<open>Properties\<close>

subsection \<open>Replacing a delegate\<close>

lemma SetLogger_root: "root (ConcreteLogger_SetLogger a lg s) = root s"
  by (simp add: ConcreteLogger_SetLogger_def)

lemma SetLogger_length: "length (heap (ConcreteLogger_SetLogger a lg s)) = length (heap s)"
  by (simp add: ConcreteLogger_SetLogger_def)

lemma SetLogger_ctx: "ctx (heap (ConcreteLogger_SetLogger a lg s) ! b) = ctx (heap s ! b)"
  by (cases "a < length (heap s)"; cases "a = b")
    (simp_all add: ConcreteLogger_SetLogger_def list_update_beyond)

lemma SetLogger_logger_same:
  "a < length (heap s) \<Longrightarrow>
   logger (heap (ConcreteLogger_SetLogger a lg s) ! a) = With lg (ctx (heap s ! a))"
  by (simp add: ConcreteLogger_SetLogger_def)

lemma SetLogger_logger_other:
  "b \<noteq> a \<Longrightarrow> logger (heap (ConcreteLogger_SetLogger a lg s) ! b) = logger (heap s ! b)"
  by (simp add: ConcreteLogger_SetLogger_def)

lemma SetLogger_rest:
  "loggersToClose (ConcreteLogger_SetLogger a lg s) = loggersToClose s"
  "loggersToReload (ConcreteLogger_SetLogger a lg s) = loggersToReload s"
  "written (ConcreteLogger_SetLogger a lg s) = written s"
  "stdlog (ConcreteLogger_SetLogger a lg s) = stdlog s"
  "calls (ConcreteLogger_SetLogger a lg s) = calls s"
  by (simp_all add: ConcreteLogger_SetLogger_def)

lemma map_of_inj_snd:
  assumes "distinct (map snd al)" "map_of al n = Some b" "map_of al m = Some b"
  shows "n = m"
proof -
  have "(n, b) \<in> set al" "(m, b) \<in> set al"
    using assms(2,3) by (auto dest: map_of_SomeD)
  moreover have "inj_on snd (set al)"
    using assms(1) by (simp add: distinct_map)
  ultimately show ?thesis
    using inj_onD[of snd "set al" "(n, b)" "(m, b)"] by simp
qed

lemma named_root: "root (initialize_named L n s) = root s"
  by (simp add: initialize_named_def SetLogger_root split: option.splits)

lemma named_length: "length (heap (initialize_named L n s)) = length (heap s)"
  by (simp add: initialize_named_def SetLogger_length split: option.splits)

lemma named_ctx: "ctx (heap (initialize_named L n s) ! b) = ctx (heap s ! b)"
  by (simp add: initialize_named_def SetLogger_ctx split: option.splits)

lemma named_rest:
  "loggersToClose (initialize_named L n s) = loggersToClose s"
  "loggersToReload (initialize_named L n s) = loggersToReload s"
  "written (initialize_named L n s) = written s"
  "stdlog (initialize_named L n s) = stdlog s"
  "calls (initialize_named L n s) = calls s"
  by (simp_all add: initialize_named_def SetLogger_rest split: option.splits)

lemma named_logger_hit:
  "map_of (loggersByName (root s)) n = Some a \<Longrightarrow> a < length (heap s) \<Longrightarrow>
   logger (heap (initialize_named L n s) ! a) =
   With (CompositeLogger
           (map (\<lambda>lw. case filters lw n of
                        None \<Rightarrow> NewFilter (val lw) (maxLevel lw)
                      | Some filterLevel \<Rightarrow> NewFilter (val lw) filterLevel) L))
     (ctx (heap s ! a))"
  by (simp add: initialize_named_def SetLogger_logger_same)

lemma named_logger_miss:
  "map_of (loggersByName (root s)) n \<noteq> Some b \<Longrightarrow>
   logger (heap (initialize_named L n s) ! b) = logger (heap s ! b)"
  by (auto simp: initialize_named_def SetLogger_logger_other split: option.splits)

lemma fold_named_root: "root (fold (initialize_named L) ns s) = root s"
  by (induction ns arbitrary: s) (simp_all add: named_root)

lemma fold_named_length: "length (heap (fold (initialize_named L) ns s)) = length (heap s)"
  by (induction ns arbitrary: s) (simp_all add: named_length)

lemma fold_named_ctx: "ctx (heap (fold (initialize_named L) ns s) ! b) = ctx (heap s ! b)"
  by (induction ns arbitrary: s) (simp_all add: named_ctx)

lemma fold_named_rest:
  "loggersToClose (fold (initialize_named L) ns s) = loggersToClose s"
  "loggersToReload (fold (initialize_named L) ns s) = loggersToReload s"
  "written (fold (initialize_named L) ns s) = written s"
  "stdlog (fold (initialize_named L) ns s) = stdlog s"
  "calls (fold (initialize_named L) ns s) = calls s"
  by (induction ns arbitrary: s) (simp_all add: named_rest)

lemma fold_named_untouched:
  assumes "\<forall>n \<in> set ns. map_of (loggersByName (root s)) n \<noteq> Some b"
  shows "logger (heap (fold (initialize_named L) ns s) ! b) = logger (heap s ! b)"
  using assms
proof (induction ns arbitrary: s)
  case Nil
  then show ?case by simp
next
  case (Cons n ns)
  have "logger (heap (initialize_named L n s) ! b) = logger (heap s ! b)"
    using Cons.prems by (simp add: named_logger_miss)
  moreover have "\<forall>m \<in> set ns. map_of (loggersByName (root (initialize_named L n s))) m \<noteq> Some b"
    using Cons.prems by (simp add: named_root)
  ultimately show ?case
    using Cons.IH[of "initialize_named L n s"] by simp
qed

lemma fold_named_target:
  assumes "map_of (loggersByName (root s)) name = Some a"
    and "a < length (heap s)"
    and "distinct (map snd (loggersByName (root s)))"
    and "name \<in> set ns"
  shows "logger (heap (fold (initialize_named L) ns s) ! a) =
         With (CompositeLogger
                 (map (\<lambda>lw. case filters lw name of
                              None \<Rightarrow> NewFilter (val lw) (maxLevel lw)
                            | Some filterLevel \<Rightarrow> NewFilter (val lw) filterLevel) L))
           (ctx (heap s ! a))"
  using assms
proof (induction ns arbitrary: s rule: rev_induct)
  case Nil
  then show ?case by simp
next
  case (snoc n ns)
  let ?s = "fold (initialize_named L) ns s"
  have r: "root ?s = root s" by (rule fold_named_root)
  have len: "length (heap ?s) = length (heap s)" by (rule fold_named_length)
  show ?case
  proof (cases "n = name")
    case True
    then show ?thesis
      using snoc.prems r len
      by (simp add: named_logger_hit fold_named_ctx)
  next
    case False
    then have in_ns: "name \<in> set ns" using snoc.prems by simp
    have "map_of (loggersByName (root s)) n \<noteq> Some a"
      using False map_of_inj_snd[OF snoc.prems(3) _ snoc.prems(1)] by blast
    then have "logger (heap (initialize_named L n ?s) ! a) = logger (heap ?s ! a)"
      by (simp add: named_logger_miss r)
    then show ?thesis
      using snoc.IH[OF snoc.prems(1,2,3) in_ns] by simp
  qed
qed

subsection \<open>\<^verbatim>\<open>initialize\<close> and \<^verbatim>\<open>New\<close> on the registry\<close>

lemma initialize_root: "root (initialize L s) = (root s)\<lparr>logFilters := L\<rparr>"
  by (simp add: initialize_def Let_def fold_named_root SetLogger_root)

lemma initialize_length: "length (heap (initialize L s)) = length (heap s)"
  by (simp add: initialize_def Let_def fold_named_length SetLogger_length)

lemma initialize_ctx: "ctx (heap (initialize L s) ! b) = ctx (heap s ! b)"
  by (simp add: initialize_def Let_def fold_named_ctx SetLogger_ctx)

lemma initialize_rest:
  "loggersToClose (initialize L s) = loggersToClose s"
  "loggersToReload (initialize L s) = loggersToReload s"
  "written (initialize L s) = written s"
  "stdlog (initialize L s) = stdlog s"
  "calls (initialize L s) = calls s"
  by (simp_all add: initialize_def Let_def fold_named_rest SetLogger_rest)

lemma wf_registered:
  assumes "wf_registry s" "map_of (loggersByName (root s)) n = Some a"
  shows "a < length (heap s)" "a \<noteq> concrete (root s)"
proof -
  have "(n, a) \<in> set (loggersByName (root s))"
    using assms(2) by (rule map_of_SomeD)
  moreover have "\<forall>p \<in> set (loggersByName (root s)).
      case p of (name, cl) \<Rightarrow> cl < length (heap s) \<and> cl \<noteq> concrete (root s)"
    using assms(1) by (simp add: wf_registry_def list_all_iff)
  ultimately show "a < length (heap s)" "a \<noteq> concrete (root s)"
    by fastforce+
qed

lemma initialize_wf: "wf_registry s \<Longrightarrow> wf_registry (initialize L s)"
  by (simp add: wf_registry_def initialize_root initialize_length)

lemma initialize_named_logger:
  assumes "wf_registry s" "map_of (loggersByName (root s)) name = Some a"
  shows "logger (heap (initialize L s) ! a) =
         With (CompositeLogger
                 (map (\<lambda>lw. case filters lw name of
                              None \<Rightarrow> NewFilter (val lw) (maxLevel lw)
                            | Some filterLevel \<Rightarrow> NewFilter (val lw) filterLevel) L))
           (ctx (heap s ! a))"
proof -
  let ?s1 = "ConcreteLogger_SetLogger (concrete (root s))
               (CompositeLogger (map (\<lambda>lw. NewFilter (val lw) (maxLevel lw)) L)) s"
  let ?s2 = "?s1\<lparr>root := (root ?s1)\<lparr>logFilters := L\<rparr>\<rparr>"
  have reg: "loggersByName (root ?s2) = loggersByName (root s)"
    by (simp add: SetLogger_root)
  have a: "a < length (heap ?s2)"
    using wf_registered(1)[OF assms] by (simp add: SetLogger_length)
  have d: "distinct (map snd (loggersByName (root ?s2)))"
    using assms(1) by (simp add: wf_registry_def SetLogger_root)
  have m: "map_of (loggersByName (root ?s2)) name = Some a"
    using assms(2) by (simp add: SetLogger_root)
  have "name \<in> fst ` set (loggersByName (root s))"
    using assms(2) by (force dest: map_of_SomeD)
  then have mem: "name \<in> set (sort (map fst (loggersByName (root ?s2))))"
    by (simp add: SetLogger_root)
  have "logger (heap (fold (initialize_named L)
                        (sort (map fst (loggersByName (root ?s2)))) ?s2) ! a) =
        With (CompositeLogger
                 (map (\<lambda>lw. case filters lw name of
                              None \<Rightarrow> NewFilter (val lw) (maxLevel lw)
                            | Some filterLevel \<Rightarrow> NewFilter (val lw) filterLevel) L))
           (ctx (heap ?s2 ! a))"
    by (rule fold_named_target[OF m a d mem])
  moreover have "ctx (heap ?s2 ! a) = ctx (heap s ! a)"
    by (simp add: SetLogger_ctx)
  ultimately show ?thesis
    by (simp add: initialize_def Let_def)
qed

lemma initialize_root_logger:
  assumes "wf_registry s"
  shows "logger (heap (initialize L s) ! concrete (root s)) =
         With (CompositeLogger (map (\<lambda>lw. NewFilter (val lw) (maxLevel lw)) L))
           (ctx (heap s ! concrete (root s)))"
proof -
  let ?s1 = "ConcreteLogger_SetLogger (concrete (root s))
               (CompositeLogger (map (\<lambda>lw. NewFilter (val lw) (maxLevel lw)) L)) s"
  let ?s2 = "?s1\<lparr>root := (root ?s1)\<lparr>logFilters := L\<rparr>\<rparr>"
  have "\<forall>n \<in> set (sort (map fst (loggersByName (root ?s2)))).
          map_of (loggersByName (root ?s2)) n \<noteq> Some (concrete (root s))"
    using wf_registered(2)[OF assms] by (auto simp: SetLogger_root)
  then have "logger (heap (fold (initialize_named L)
                        (sort (map fst (loggersByName (root ?s2)))) ?s2) ! concrete (root s)) =
             logger (heap ?s2 ! concrete (root s))"
    by (rule fold_named_untouched)
  moreover have "logger (heap ?s2 ! concrete (root s)) =
         With (CompositeLogger (map (\<lambda>lw. NewFilter (val lw) (maxLevel lw)) L))
           (ctx (heap s ! concrete (root s)))"
    using assms by (simp add: wf_registry_def SetLogger_logger_same)
  ultimately show ?thesis
    by (simp add: initialize_def Let_def)
qed

lemma New_loop_map:
  "New_loop name L acc =
   acc @ map (\<lambda>lw. case filters lw name of
                     None \<Rightarrow> NewFilter (val lw) (maxLevel lw)
                   | Some filterLevel \<Rightarrow> NewFilter (val lw) filterLevel) L"
  by (induction L arbitrary: acc) (simp_all split: option.splits)

lemma update_fresh: "k \<notin> fst ` set al \<Longrightarrow> AList.update k v al = al @ [(k, v)]"
  by (induction al) auto

lemma map_of_None_keys: "map_of al k = None \<Longrightarrow> k \<notin> fst ` set al"
  by (simp add: map_of_eq_None_iff)

lemma New_cached:
  "map_of (loggersByName (root s)) name = Some a \<Longrightarrow>
   logManager_New (StrV name # rest) s = (a, s)"
  by simp

lemma New_fresh:
  "map_of (loggersByName (root s)) name = None \<Longrightarrow>
   logManager_New (StrV name # rest) s =
     (length (heap s),
      s\<lparr>heap := heap s @
         [newConcreteLogger
            (if logFilters (root s) = [] then logger (heap s ! concrete (root s))
             else CompositeLogger
                    (map (\<lambda>lw. case filters lw name of
                                 None \<Rightarrow> NewFilter (val lw) (maxLevel lw)
                               | Some filterLevel \<Rightarrow> NewFilter (val lw) filterLevel)
                       (logFilters (root s))))
            (StrV ''logger'' # StrV name # rest)],
        root := (root s)\<lparr>loggersByName := loggersByName (root s) @ [(name, length (heap s))]\<rparr>\<rparr>)"
  by (simp add: alloc_def New_loop_map update_fresh map_of_None_keys)

lemma New_cases:
  obtains (same) "logManager_New cx s = (concrete (root s), s)"
  | (cached) name rest a where "cx = StrV name # rest"
      "map_of (loggersByName (root s)) name = Some a" "logManager_New cx s = (a, s)"
  | (fresh) name rest cl where "cx = StrV name # rest"
      "map_of (loggersByName (root s)) name = None"
      "logManager_New cx s =
         (length (heap s),
          s\<lparr>heap := heap s @ [cl],
            root := (root s)\<lparr>loggersByName := loggersByName (root s) @ [(name, length (heap s))]\<rparr>\<rparr>)"
proof (cases "(cx, s)" rule: logManager_New.cases)
  case (1 s')
  then show ?thesis using same by simp
next
  case (2 loggerName rest s')
  show ?thesis
  proof (cases "map_of (loggersByName (root s)) loggerName")
    case None
    then show ?thesis using 2 fresh New_fresh by blast
  next
    case (Some a)
    then show ?thesis using 2 cached New_cached by blast
  qed
qed (use same in simp_all)

lemma New_wf:
  assumes "wf_registry s"
  shows "wf_registry (snd (logManager_New cx s))"
proof (cases rule: New_cases[of cx s])
  case same
  then show ?thesis using assms by simp
next
  case (cached name rest a)
  then show ?thesis using assms by simp
next
  case (fresh name rest cl)
  have k: "name \<notin> fst ` set (loggersByName (root s))"
    using fresh(2) by (rule map_of_None_keys)
  have "\<forall>p \<in> set (loggersByName (root s)).
      case p of (name, cl) \<Rightarrow> cl < length (heap s) \<and> cl \<noteq> concrete (root s)"
    using assms by (simp add: wf_registry_def list_all_iff)
  then have "length (heap s) \<notin> snd ` set (loggersByName (root s))"
    by fastforce
  then show ?thesis
    using assms k fresh(3)
    by (auto simp: wf_registry_def list_all_iff)
qed

lemma New_mono:
  assumes "map_of (loggersByName (root s)) n = Some a"
  shows "map_of (loggersByName (root (snd (logManager_New cx s)))) n = Some a"
proof (cases rule: New_cases[of cx s])
  case (fresh name rest cl)
  then show ?thesis
    using assms by (simp add: map_add_Some_iff)
qed (use assms in simp_all)

lemma New_heap:
  assumes "b < length (heap s)"
  shows "heap (snd (logManager_New cx s)) ! b = heap s ! b"
proof (cases rule: New_cases[of cx s])
  case (fresh name rest cl)
  then show ?thesis
    using assms by (simp add: nth_append)
qed simp_all

lemma New_length: "length (heap s) \<le> length (heap (snd (logManager_New cx s)))"
  by (cases rule: New_cases[of cx s]) simp_all

subsection \<open>Identity, thresholds and the name-scoped singleton\<close>

lemma New_empty: "logManager_New [] s = (concrete (root s), s)"
  by simp

lemma Derive_unfold:
  "ConcreteLogger_New cl cx s =
     (let s1 = (if length (ctx (heap s ! cl)) mod 2 = 1
                then s\<lparr>heap := (heap s)[cl := (heap s ! cl)\<lparr>ctx := ctx (heap s ! cl) @ [NilV]\<rparr>]\<rparr>
                else s)
      in logManager_New (keyvals_loop (ctx (heap s1 ! cl)) [] @ cx) s1)"
  by (simp add: ConcreteLogger_New_def Let_def)

lemma pad_wf: "wf_registry (s\<lparr>heap := (heap s)[cl := x]\<rparr>) = wf_registry s"
  by (simp add: wf_registry_def)

lemma Derive_wf: "wf_registry s \<Longrightarrow> wf_registry (snd (ConcreteLogger_New cl cx s))"
  by (simp add: Derive_unfold Let_def New_wf pad_wf)

lemma Derive_mono:
  assumes "map_of (loggersByName (root s)) n = Some a"
  shows "map_of (loggersByName (root (snd (ConcreteLogger_New cl cx s)))) n = Some a"
  using assms by (simp add: Derive_unfold Let_def New_mono)

lemma run_op_wf: "wf_registry s \<Longrightarrow> wf_registry (run_op x s)"
  by (cases x) (simp_all add: initialize_wf New_wf Derive_wf)

lemma run_op_mono:
  "map_of (loggersByName (root s)) n = Some a \<Longrightarrow>
   map_of (loggersByName (root (run_op x s))) n = Some a"
  by (cases x) (simp_all add: initialize_root New_mono Derive_mono)

lemma fold_run_op_wf: "wf_registry s \<Longrightarrow> wf_registry (fold run_op ops s)"
  by (induction ops arbitrary: s) (simp_all add: run_op_wf)

lemma fold_run_op_mono:
  "map_of (loggersByName (root s)) n = Some a \<Longrightarrow>
   map_of (loggersByName (root (fold run_op ops s))) n = Some a"
  by (induction ops arbitrary: s) (simp_all add: run_op_mono)

lemma init_state_wf: "wf_registry (init_state E)"
  by (simp add: init_state_def wf_registry_def)

lemma code_threshold:
  "(case filters lw name of
      None \<Rightarrow> NewFilter (val lw) (maxLevel lw)
    | Some filterLevel \<Rightarrow> NewFilter (val lw) filterLevel) =
   NewFilter (val lw) (spec_threshold lw name)"
  by (auto simp: spec_threshold_def split: option.splits)

lemma fold_initialize_inv:
  "wf_registry s \<Longrightarrow>
   wf_registry (fold initialize lss s) \<and>
   loggersByName (root (fold initialize lss s)) = loggersByName (root s) \<and>
   ctx (heap (fold initialize lss s) ! b) = ctx (heap s ! b)"
  by (induction lss arbitrary: s) (simp_all add: initialize_wf initialize_root initialize_ctx)

text \<open>
  C1. A named logger that is in the registry when \<^verbatim>\<open>initialize\<close> is called stays the same
  object under the same name: after one or more calls of \<^verbatim>\<open>initialize\<close> the registry is
  unchanged, the object's context is unchanged, and its delegate is the composite built
  from the last list of sinks (wrapped with the object's context). A reference held from
  before the calls therefore writes its next record through that composite.
\<close>
theorem initialize_keeps_identity:
  assumes "wf_registry s"
    and "map_of (loggersByName (root s)) name = Some cl"
    and "lss \<noteq> []"
  shows "loggersByName (root (fold initialize lss s)) = loggersByName (root s) \<and>
         map_of (loggersByName (root (fold initialize lss s))) name = Some cl \<and>
         ctx (heap (fold initialize lss s) ! cl) = ctx (heap s ! cl) \<and>
         ConcreteLogger_GetLogger cl (fold initialize lss s) =
           With (CompositeLogger
                   (map (\<lambda>lw. case filters lw name of
                                None \<Rightarrow> NewFilter (val lw) (maxLevel lw)
                              | Some filterLevel \<Rightarrow> NewFilter (val lw) filterLevel) (last lss)))
             (ctx (heap s ! cl)) \<and>
         written (snd (ConcreteLogger_Log E cl keyvals (fold initialize lss s))) =
           written s @
           [(With (CompositeLogger
                   (map (\<lambda>lw. case filters lw name of
                                None \<Rightarrow> NewFilter (val lw) (maxLevel lw)
                              | Some filterLevel \<Rightarrow> NewFilter (val lw) filterLevel) (last lss)))
              (ctx (heap s ! cl)), keyvals)]"
proof -
  obtain pre L where lss: "lss = pre @ [L]"
    using assms(3) by (metis rev_exhaust)
  let ?s = "fold initialize pre s"
  have inv: "wf_registry ?s" "loggersByName (root ?s) = loggersByName (root s)"
    "ctx (heap ?s ! cl) = ctx (heap s ! cl)"
    using fold_initialize_inv[OF assms(1), of pre cl] by simp_all
  have w: "written (fold initialize lss s) = written s"
    by (induction lss arbitrary: s) (simp_all add: initialize_rest)
  have m: "map_of (loggersByName (root ?s)) name = Some cl"
    using assms(2) inv(2) by simp
  have lg: "logger (heap (initialize L ?s) ! cl) =
         With (CompositeLogger
                 (map (\<lambda>lw. case filters lw name of
                              None \<Rightarrow> NewFilter (val lw) (maxLevel lw)
                            | Some filterLevel \<Rightarrow> NewFilter (val lw) filterLevel) L))
           (ctx (heap s ! cl))"
    using initialize_named_logger[OF inv(1) m, of L] inv(3) by simp
  have f: "fold initialize lss s = initialize L ?s"
    by (simp add: lss)
  show ?thesis
    using fold_initialize_inv[OF assms(1), of lss cl] assms(2) lg w
    by (simp add: f lss ConcreteLogger_GetLogger_def ConcreteLogger_Log_def Let_def)
qed

text \<open>
  C2. The threshold applied to a sink for a logger name is the sink's override for that name
  when its filters contain the name and the sink's own default otherwise, both when
  \<^verbatim>\<open>initialize\<close> rebuilds the delegate of a registered logger and when \<^verbatim>\<open>New\<close> builds the
  logger of a name not seen before from the current sinks.
\<close>
theorem threshold_override_else_default:
  "(wf_registry s \<longrightarrow> map_of (loggersByName (root s)) name = Some cl \<longrightarrow>
      logger (heap (initialize L s) ! cl) =
        With (CompositeLogger (map (\<lambda>lw. NewFilter (val lw) (spec_threshold lw name)) L))
          (ctx (heap s ! cl))) \<and>
   (map_of (loggersByName (root s')) name' = None \<longrightarrow> logFilters (root s') \<noteq> [] \<longrightarrow>
      heap (snd (logManager_New (StrV name' # rest) s')) !
        fst (logManager_New (StrV name' # rest) s') =
        \<lparr>ctx = StrV ''logger'' # StrV name' # rest,
         logger = With (CompositeLogger
                          (map (\<lambda>lw. NewFilter (val lw) (spec_threshold lw name'))
                             (logFilters (root s'))))
                    (StrV ''logger'' # StrV name' # rest)\<rparr>)"
proof (intro conjI impI)
  assume "wf_registry s" "map_of (loggersByName (root s)) name = Some cl"
  then show "logger (heap (initialize L s) ! cl) =
        With (CompositeLogger (map (\<lambda>lw. NewFilter (val lw) (spec_threshold lw name)) L))
          (ctx (heap s ! cl))"
    by (simp add: initialize_named_logger code_threshold)
next
  assume "map_of (loggersByName (root s')) name' = None" "logFilters (root s') \<noteq> []"
  then show "heap (snd (logManager_New (StrV name' # rest) s')) !
               fst (logManager_New (StrV name' # rest) s') =
        \<lparr>ctx = StrV ''logger'' # StrV name' # rest,
         logger = With (CompositeLogger
                          (map (\<lambda>lw. NewFilter (val lw) (spec_threshold lw name'))
                             (logFilters (root s'))))
                    (StrV ''logger'' # StrV name' # rest)\<rparr>"
    by (simp add: New_fresh code_threshold newConcreteLogger_def del: logManager_New.simps)
qed

text \<open>
  C4. The first \<^verbatim>\<open>New(name)\<close> allocates a new logger for the name, built over the current
  sinks filtered for that name (over the root's delegate while no sinks are configured),
  and registers it under the name. Every later \<^verbatim>\<open>New\<close> with that name, after any sequence of
  registry operations and whatever further context it is given, returns that object and
  changes nothing.
\<close>
theorem New_name_scoped_singleton:
  assumes "map_of (loggersByName (root s)) name = None"
    and "logManager_New (StrV name # rest) s = (cl, s1)"
  shows "cl = length (heap s) \<and>
         length (heap s1) = Suc (length (heap s)) \<and>
         heap s1 ! cl =
           newConcreteLogger
             (if logFilters (root s) = [] then logger (heap s ! concrete (root s))
              else CompositeLogger
                     (map (\<lambda>lw. NewFilter (val lw) (spec_threshold lw name))
                        (logFilters (root s))))
             (StrV ''logger'' # StrV name # rest) \<and>
         map_of (loggersByName (root s1)) name = Some cl \<and>
         (\<forall>ops rest'. logManager_New (StrV name # rest') (fold run_op ops s1) =
                        (cl, fold run_op ops s1))"
proof -
  have eq: "(cl, s1) = (length (heap s),
      s\<lparr>heap := heap s @
         [newConcreteLogger
            (if logFilters (root s) = [] then logger (heap s ! concrete (root s))
             else CompositeLogger
                    (map (\<lambda>lw. case filters lw name of
                                 None \<Rightarrow> NewFilter (val lw) (maxLevel lw)
                               | Some filterLevel \<Rightarrow> NewFilter (val lw) filterLevel)
                       (logFilters (root s))))
            (StrV ''logger'' # StrV name # rest)],
        root := (root s)\<lparr>loggersByName := loggersByName (root s) @ [(name, length (heap s))]\<rparr>\<rparr>)"
    using New_fresh[OF assms(1), of rest] assms(2) by (simp del: logManager_New.simps)
  then have cl: "cl = length (heap s)" and s1: "s1 = s\<lparr>heap := heap s @
         [newConcreteLogger
            (if logFilters (root s) = [] then logger (heap s ! concrete (root s))
             else CompositeLogger
                    (map (\<lambda>lw. case filters lw name of
                                 None \<Rightarrow> NewFilter (val lw) (maxLevel lw)
                               | Some filterLevel \<Rightarrow> NewFilter (val lw) filterLevel)
                       (logFilters (root s))))
            (StrV ''logger'' # StrV name # rest)],
        root := (root s)\<lparr>loggersByName := loggersByName (root s) @ [(name, length (heap s))]\<rparr>\<rparr>"
    by simp_all
  have m: "map_of (loggersByName (root s1)) name = Some cl"
    using assms(1) by (simp add: s1 cl map_add_Some_iff)
  have later: "logManager_New (StrV name # rest') (fold run_op ops s1) = (cl, fold run_op ops s1)"
    for ops rest'
    using fold_run_op_mono[OF m, of ops] by (rule New_cached)
  show ?thesis
    using m later by (simp add: s1 cl code_threshold)
qed

lemma db_state_eval:
  "logManager_New [StrV ''db''] (init_state example_env) = (1, db_state)"
  "root db_state = \<lparr>concrete = 0, loggersByName = [(''db'', 1)], logFilters = []\<rparr>"
  "length (heap db_state) = 2"
  "heap db_state ! Suc 0 =
     \<lparr>ctx = [StrV ''logger'', StrV ''db''],
      logger = With (NewFilter (FormatLogger LogfmtLogger Stderr) AllowInfo)
                 [StrV ''logger'', StrV ''db'']\<rparr>"
  "written db_state = []"
  by (simp_all add: db_state_def init_state_def alloc_def newConcreteLogger_def getLogFormat_def
      example_env_def Let_def)

theorem initialize_keeps_identity_witness:
  "wf_registry db_state \<and>
   map_of (loggersByName (root db_state)) ''db'' = Some 1 \<and>
   [[console_sink], [console_sink, file_sink]] \<noteq> [] \<and>
   map_of (loggersByName (root (fold initialize [[console_sink], [console_sink, file_sink]]
      db_state))) ''db'' = Some 1 \<and>
   ConcreteLogger_GetLogger 1 (fold initialize [[console_sink], [console_sink, file_sink]] db_state) =
     With (CompositeLogger
             [NewFilter (FormatLogger LogfmtLogger Stdout) AllowInfo,
              NewFilter (HandlerLogger (FileHandler file_writer)) AllowDebug])
       [StrV ''logger'', StrV ''db''] \<and>
   written (snd (ConcreteLogger_Log example_env 1 [StrV ''msg'', StrV ''query'']
      (fold initialize [[console_sink], [console_sink, file_sink]] db_state))) =
     [(With (CompositeLogger
             [NewFilter (FormatLogger LogfmtLogger Stdout) AllowInfo,
              NewFilter (HandlerLogger (FileHandler file_writer)) AllowDebug])
       [StrV ''logger'', StrV ''db''], [StrV ''msg'', StrV ''query''])]"
proof -
  have h1: "wf_registry db_state"
    by (simp add: wf_registry_def db_state_eval)
  have h2: "map_of (loggersByName (root db_state)) ''db'' = Some 1"
    by (simp add: db_state_eval)
  have h3: "[[console_sink], [console_sink, file_sink]] \<noteq> []"
    by simp
  show ?thesis
    using initialize_keeps_identity[OF h1 h2 h3, of example_env "[StrV ''msg'', StrV ''query'']"] h1
    by (simp add: db_state_eval console_sink_def file_sink_def)
qed

theorem threshold_override_else_default_witness:
  "wf_registry db_state \<and>
   map_of (loggersByName (root db_state)) ''db'' = Some 1 \<and>
   logger (heap (initialize [console_sink, file_sink] db_state) ! 1) =
     With (CompositeLogger
             [NewFilter (FormatLogger LogfmtLogger Stdout) AllowInfo,
              NewFilter (HandlerLogger (FileHandler file_writer)) AllowDebug])
       [StrV ''logger'', StrV ''db''] \<and>
   map_of (loggersByName (root (initialize [console_sink, file_sink] db_state))) ''http'' = None \<and>
   logFilters (root (initialize [console_sink, file_sink] db_state)) \<noteq> [] \<and>
   heap (snd (logManager_New [StrV ''http'']
                (initialize [console_sink, file_sink] db_state))) !
     fst (logManager_New [StrV ''http''] (initialize [console_sink, file_sink] db_state)) =
     \<lparr>ctx = [StrV ''logger'', StrV ''http''],
      logger = With (CompositeLogger
                       [NewFilter (FormatLogger LogfmtLogger Stdout) AllowInfo,
                        NewFilter (HandlerLogger (FileHandler file_writer)) AllowWarn])
                 [StrV ''logger'', StrV ''http'']\<rparr>"
proof -
  have h1: "wf_registry db_state"
    by (simp add: wf_registry_def db_state_eval)
  have h2: "map_of (loggersByName (root db_state)) ''db'' = Some 1"
    by (simp add: db_state_eval)
  have h3: "map_of (loggersByName (root (initialize [console_sink, file_sink] db_state))) ''http''
              = None"
    by (simp add: initialize_root db_state_eval)
  have h4: "logFilters (root (initialize [console_sink, file_sink] db_state)) \<noteq> []"
    by (simp add: initialize_root)
  show ?thesis
    using threshold_override_else_default[of db_state "''db''" 1 "[console_sink, file_sink]"
        "initialize [console_sink, file_sink] db_state" "''http''" "[]"] h1 h2 h3 h4
    by (simp add: db_state_eval console_sink_def file_sink_def spec_threshold_def initialize_root
        del: logManager_New.simps)
qed

theorem New_name_scoped_singleton_witness:
  "map_of (loggersByName (root (init_state example_env))) ''db'' = None \<and>
   logManager_New [StrV ''db''] (init_state example_env) = (1, db_state) \<and>
   map_of (loggersByName (root db_state)) ''db'' = Some 1 \<and>
   logManager_New [StrV ''db'', StrV ''table'', StrV ''user'']
     (fold run_op [Initialize [console_sink, file_sink], RootNew [StrV ''http''], Derive 1 []]
        db_state) =
   (1, fold run_op [Initialize [console_sink, file_sink], RootNew [StrV ''http''], Derive 1 []]
        db_state)"
proof -
  have h1: "map_of (loggersByName (root (init_state example_env))) ''db'' = None"
    by (simp add: init_state_def)
  have h2: "logManager_New [StrV ''db''] (init_state example_env) = (1, db_state)"
    by (rule db_state_eval)
  show ?thesis
    using New_name_scoped_singleton[OF h1 h2] h1 h2 by blast
qed

subsection \<open>Deriving a logger\<close>

text \<open>
  C3. \<^verbatim>\<open>ConcreteLogger.New\<close> with no arguments on the logger named \<^verbatim>\<open>db\<close>: the call
  \<^verbatim>\<open>root.New()\<close> in the branch for an empty argument list has its result dropped, the
  context of the logger without its \<^verbatim>\<open>"logger"\<close> pair is empty, and the final
  \<^verbatim>\<open>root.New(keyvals...)\<close> returns the root logger, not the logger the method was called on.
\<close>
theorem derive_without_context_returns_root:
  "map_of (loggersByName (root db_state)) ''db'' = Some 1 \<and>
   concrete (root db_state) = 0 \<and>
   ctx (heap db_state ! 1) = [StrV ''logger'', StrV ''db''] \<and>
   fst (ConcreteLogger_New 1 [] db_state) = 0 \<and>
   fst (ConcreteLogger_New 1 [] db_state) \<noteq> 1"
  by (simp add: db_state_eval Derive_unfold)

lemma has_logger_key_append:
  "even (length xs) \<Longrightarrow> has_logger_key (xs @ ys) = (has_logger_key xs \<or> has_logger_key ys)"
  by (induction xs rule: has_logger_key.induct) auto

lemma keyvals_loop_no_logger:
  "even (length acc) \<Longrightarrow> \<not> has_logger_key acc \<Longrightarrow> \<not> has_logger_key (keyvals_loop c acc)"
  by (induction c acc rule: keyvals_loop.induct) (auto simp: has_logger_key_append)

subsection \<open>Close and Reload\<close>

lemma Close_loop_calls: "snd (Close_loop E hs err cs) = cs @ map CloseCall hs"
  by (induction hs arbitrary: err cs) (simp_all add: Let_def)

lemma upt_0_Suc_map: "map f [0..<Suc n] = f 0 # map (\<lambda>i. f (Suc i)) [0..<n]"
proof -
  have "[0..<Suc n] = 0 # map Suc [0..<n]"
    by (simp add: upt_conv_Cons map_Suc_upt del: upt_Suc)
  then show ?thesis
    by (simp add: comp_def del: upt_Suc)
qed

lemma first_error_Cons: "first_error (r # rs) = (case r of Some e \<Rightarrow> Some e | None \<Rightarrow> first_error rs)"
  by (cases r) simp_all

lemma Close_loop_err:
  "fst (Close_loop E hs err cs) =
     (case err of
        Some e \<Rightarrow> Some e
      | None \<Rightarrow> first_error
          (map (\<lambda>i. CloseErr E (cs @ map CloseCall (take i hs)) (hs ! i)) [0..<length hs]))"
proof (induction hs arbitrary: err cs)
  case Nil
  then show ?case by (simp split: option.splits)
next
  case (Cons h hs)
  show ?case
    by (simp add: Let_def Cons.IH upt_0_Suc_map first_error_Cons del: upt_Suc
        split: option.splits)
qed

text \<open>
  C7. \<^verbatim>\<open>Close()\<close> calls \<^verbatim>\<open>Close\<close> on every handler of \<^verbatim>\<open>loggersToClose\<close>, in order and also
  after a failure; it returns the first error among the results (nil if there is none)
  and leaves the list empty. A second \<^verbatim>\<open>Close()\<close> right after calls nothing and returns nil.
\<close>
theorem Close_closes_all_and_is_idempotent:
  "calls (snd (Close E s)) = calls s @ map CloseCall (loggersToClose s) \<and>
   fst (Close E s) =
     first_error
       (map (\<lambda>i. CloseErr E (calls s @ map CloseCall (take i (loggersToClose s)))
                   (loggersToClose s ! i))
          [0..<length (loggersToClose s)]) \<and>
   loggersToClose (snd (Close E s)) = [] \<and>
   Close E (snd (Close E s)) = (None, snd (Close E s))"
proof -
  obtain err cs where l: "Close_loop E (loggersToClose s) None (calls s) = (err, cs)"
    by (cases "Close_loop E (loggersToClose s) None (calls s)")
  have cs: "cs = calls s @ map CloseCall (loggersToClose s)"
    using Close_loop_calls[of E "loggersToClose s" None "calls s"] l by simp
  have err: "err = first_error
       (map (\<lambda>i. CloseErr E (calls s @ map CloseCall (take i (loggersToClose s)))
                   (loggersToClose s ! i))
          [0..<length (loggersToClose s)])"
    using Close_loop_err[of E "loggersToClose s" None "calls s"] l by simp
  have c: "Close E s = (err, s\<lparr>loggersToClose := [], calls := cs\<rparr>)"
    by (simp add: Close_def l)
  show ?thesis
    using cs err by (simp add: c) (simp add: Close_def)
qed

lemma Reload_loop_eq:
  "Reload_loop E hs cs =
     (let rs = map (\<lambda>i. ReloadErr E (cs @ map ReloadCall (take i hs)) (hs ! i)) [0..<length hs]
      in (first_error rs,
          cs @ map ReloadCall (take (Suc (length (takeWhile (\<lambda>r. r = None) rs))) hs)))"
proof (induction hs arbitrary: cs)
  case Nil
  then show ?case by simp
next
  case (Cons h hs)
  show ?case
    by (simp add: Let_def Cons.IH upt_0_Suc_map first_error_Cons del: upt_Suc
        split: option.splits)
qed

lemma first_error_None: "(first_error rs = None) = list_all (\<lambda>r. r = None) rs"
  by (induction rs rule: first_error.induct) simp_all

text \<open>
  C8. \<^verbatim>\<open>Reload()\<close> calls \<^verbatim>\<open>Reload\<close> on the handlers of \<^verbatim>\<open>loggersToReload\<close> in order, up to and
  including the first one that fails, and returns that error; the handlers after it are
  not called. It returns nil exactly when every reload succeeds.
\<close>
theorem Reload_stops_at_first_error:
  "Reload E s =
     (let hs = loggersToReload s;
          rs = map (\<lambda>i. ReloadErr E (calls s @ map ReloadCall (take i hs)) (hs ! i))
                 [0..<length hs]
      in (first_error rs,
          s\<lparr>calls := calls s @
               map ReloadCall (take (Suc (length (takeWhile (\<lambda>r. r = None) rs))) hs)\<rparr>)) \<and>
   (fst (Reload E s) = None) =
     list_all (\<lambda>r. r = None)
       (map (\<lambda>i. ReloadErr E (calls s @ map ReloadCall (take i (loggersToReload s)))
                   (loggersToReload s ! i))
          [0..<length (loggersToReload s)])"
  by (simp add: Reload_def Reload_loop_eq Let_def first_error_None del: upt_Suc)

subsection \<open>Level names\<close>

lemma only_logs_refl: "only_logs s s"
  by (simp add: only_logs_def)

lemma only_logs_trans: "only_logs s s1 \<Longrightarrow> only_logs s1 s2 \<Longrightarrow> only_logs s s2"
  by (auto simp: only_logs_def)

lemma level_Error_Log_written:
  "written (level_Error_Log E kvs s) =
   written s @ [(logger (heap s ! concrete (root s)), LevelKeyV # LevelV ErrorValue # kvs)]"
  by (simp add: level_Error_Log_def logManager_Log_def ConcreteLogger_Log_def Let_def
      split: option.splits)

lemma level_Error_Log_only_logs: "only_logs s (level_Error_Log E kvs s)"
  by (simp add: only_logs_def level_Error_Log_def logManager_Log_def ConcreteLogger_Log_def
      Let_def split: option.splits)

lemma logLevels_unknown:
  assumes "levelName \<notin> {''trace'', ''debug'', ''info'', ''warn'', ''error'', ''critical''}"
  shows "logLevels levelName = None"
  using assms by (simp add: logLevels_def)

lemma logLevels_known:
  "logLevels ''trace'' = Some AllowDebug" "logLevels ''debug'' = Some AllowDebug"
  "logLevels ''info'' = Some AllowInfo" "logLevels ''warn'' = Some AllowWarn"
  "logLevels ''error'' = Some AllowError" "logLevels ''critical'' = Some AllowError"
  by (simp_all add: logLevels_def)

text \<open>
  C9. A level name that is not one of \<^verbatim>\<open>trace\<close>, \<^verbatim>\<open>debug\<close>, \<^verbatim>\<open>info\<close>, \<^verbatim>\<open>warn\<close>, \<^verbatim>\<open>error\<close>,
  \<^verbatim>\<open>critical\<close> resolves to the error threshold, and exactly one record, at error severity
  and naming the level, is written through the root logger; nothing else changes.
\<close>
theorem unknown_level_is_error_and_logged:
  assumes "levelName \<notin> {''trace'', ''debug'', ''info'', ''warn'', ''error'', ''critical''}"
  shows "fst (getLogLevelFromString E levelName s) = AllowError \<and>
         written (snd (getLogLevelFromString E levelName s)) =
           written s @
           [(logger (heap s ! concrete (root s)),
             [LevelKeyV, LevelV ErrorValue,
              StrV ''Unknown log level'', StrV ''level'', StrV levelName])] \<and>
         only_logs s (snd (getLogLevelFromString E levelName s))"
  using logLevels_unknown[OF assms]
  by (simp add: getLogLevelFromString_def level_Error_Log_written level_Error_Log_only_logs)

theorem unknown_level_is_error_and_logged_witness:
  "''verbose'' \<notin> {''trace'', ''debug'', ''info'', ''warn'', ''error'', ''critical''} \<and>
   fst (getLogLevelFromString example_env ''verbose'' (init_state example_env)) = AllowError \<and>
   written (snd (getLogLevelFromString example_env ''verbose'' (init_state example_env))) =
     [(NewFilter (FormatLogger LogfmtLogger Stderr) AllowInfo,
       [LevelKeyV, LevelV ErrorValue,
        StrV ''Unknown log level'', StrV ''level'', StrV ''verbose''])]"
proof -
  have h: "''verbose'' \<notin> {''trace'', ''debug'', ''info'', ''warn'', ''error'', ''critical''}"
    by simp
  show ?thesis
    using unknown_level_is_error_and_logged[OF h, of example_env "init_state example_env"]
    by (simp add: init_state_def newConcreteLogger_def getLogFormat_def example_env_def)
qed

text \<open>
  C10. \<^verbatim>\<open>trace\<close> resolves to the same option as \<^verbatim>\<open>debug\<close> and \<^verbatim>\<open>critical\<close> to the same
  option as \<^verbatim>\<open>error\<close>. So a filter built from one name of a pair is the filter built from
  the other, and whatever a filter does with its option (\<open>admits\<close>, or the specification's
  \<open>allow\<close>), it admits the same records for both names.
\<close>
theorem trace_is_debug_and_critical_is_error:
  "logLevels ''trace'' = logLevels ''debug'' \<and>
   logLevels ''trace'' = Some AllowDebug \<and>
   logLevels ''critical'' = logLevels ''error'' \<and>
   logLevels ''critical'' = Some AllowError \<and>
   getLogLevelFromString E ''trace'' s = getLogLevelFromString E ''debug'' s \<and>
   getLogLevelFromString E ''critical'' s = getLogLevelFromString E ''error'' s \<and>
   NewFilter sink (fst (getLogLevelFromString E ''critical'' s)) =
     NewFilter sink (fst (getLogLevelFromString E ''error'' s)) \<and>
   NewFilter sink (fst (getLogLevelFromString E ''trace'' s)) =
     NewFilter sink (fst (getLogLevelFromString E ''debug'' s)) \<and>
   (\<forall>lv. allow lv (fst (getLogLevelFromString E ''critical'' s)) =
         allow lv (fst (getLogLevelFromString E ''error'' s))) \<and>
   (\<forall>lv. allow lv (fst (getLogLevelFromString E ''trace'' s)) =
         allow lv (fst (getLogLevelFromString E ''debug'' s))) \<and>
   admits (fst (getLogLevelFromString E ''critical'' s)) =
     admits (fst (getLogLevelFromString E ''error'' s)) \<and>
   admits (fst (getLogLevelFromString E ''trace'' s)) =
     admits (fst (getLogLevelFromString E ''debug'' s))"
  by (simp add: getLogLevelFromString_def logLevels_known)

lemma getLogLevelFromString_only_logs:
  "only_logs s (snd (getLogLevelFromString E levelName s))"
  by (simp add: getLogLevelFromString_def level_Error_Log_only_logs only_logs_refl
      split: option.splits)

lemma getLogLevelFromConfig_only_logs:
  "getLogLevelFromConfig E key defaultName cfg s = (levelName, lv, s1) \<Longrightarrow> only_logs s s1"
  using getLogLevelFromString_only_logs[of s E "ToLower E (MustString (KeyString cfg key ''level'') defaultName)"]
  by (auto simp: getLogLevelFromConfig_def Let_def split: prod.splits)

lemma getFilters_loop_only_logs: "only_logs s (snd (getFilters_loop E fs m s))"
proof (induction fs arbitrary: m s)
  case Nil
  then show ?case by (simp add: only_logs_refl)
next
  case (Cons f fs)
  show ?case
  proof (cases "length (strings_Split CHR '':'' f) > 1")
    case True
    obtain lv s0 where g: "getLogLevelFromString E (strings_Split CHR '':'' f ! 1) s = (lv, s0)"
      by (cases "getLogLevelFromString E (strings_Split CHR '':'' f ! 1) s")
    have "only_logs s s0"
      using getLogLevelFromString_only_logs[of s E "strings_Split CHR '':'' f ! 1"] g by simp
    moreover have "only_logs s0 (snd (getFilters_loop E fs (m(strings_Split CHR '':'' f ! 0 \<mapsto> lv)) s0))"
      by (rule Cons.IH)
    ultimately have "only_logs s (snd (getFilters_loop E fs (m(strings_Split CHR '':'' f ! 0 \<mapsto> lv)) s0))"
      by (rule only_logs_trans)
    then show ?thesis
      using True g by (simp add: Let_def)
  next
    case False
    then show ?thesis
      using Cons.IH[of s m] by (simp add: Let_def)
  qed
qed

lemma getFilters_only_logs: "getFilters E fs s = (m1, s1) \<Longrightarrow> only_logs s s1"
  using getFilters_loop_only_logs[of s E fs Map.empty] by (simp add: getFilters_def)

subsection \<open>Applying a configuration\<close>

lemma only_logs_heap_root: "only_logs s s' \<Longrightarrow> heap s' = heap s \<and> root s' = root s"
  by (simp add: only_logs_def)


lemma modeLoopBody_file_failure:
  assumes "TrimSpace E mode = ''file''"
    and "GetSectionErr cfg ''log.file'' = None"
    and "fileName = MustString (KeyString cfg ''log.file'' ''file_name'')
                      (FilepathJoin E logsPath ''grafana.log'')"
    and "format = getLogFormat E (MustString (KeyString cfg ''log.file'' ''format'') [])"
    and "MkdirAll E (FilepathDir E fileName) \<noteq> None \<or>
         FileInit E (configureFileWriter E cfg ''log.file'' fileName format) \<noteq> None"
  shows "\<exists>s' msg err.
           modeLoopBody E logsPath cfg dln df mode cls s = Proceed cls s' \<and>
           only_logs s s' \<and>
           (\<exists>ws. written s' = written s @ ws @
             [(logger (heap s ! concrete (root s)),
               [LevelKeyV, LevelV ErrorValue, StrV msg, StrV ''dpath'',
                StrV (FilepathDir E fileName), StrV ''err'', ErrV err])]) \<and>
           (msg = ''Failed to create directory'' \<and> MkdirAll E (FilepathDir E fileName) = Some err \<or>
            msg = ''Failed to initialize file handler'' \<and>
            FileInit E (configureFileWriter E cfg ''log.file'' fileName format) = Some err)"
proof -
  obtain levelName lv s1 where g1: "getLogLevelFromConfig E ''log.file'' dln cfg s = (levelName, lv, s1)"
    by (cases "getLogLevelFromConfig E ''log.file'' dln cfg s") auto
  obtain mf s2 where g2:
    "getFilters E (SplitString E (KeyString cfg ''log.file'' ''filters'')) s1 = (mf, s2)"
    by (cases "getFilters E (SplitString E (KeyString cfg ''log.file'' ''filters'')) s1")
  have o12: "only_logs s s2"
    using getLogLevelFromConfig_only_logs[OF g1] getFilters_only_logs[OF g2]
    by (rule only_logs_trans)
  have hr: "heap s2 = heap s" "root s2 = root s"
    using only_logs_heap_root[OF o12] by simp_all
  obtain ws where ws: "written s2 = written s @ ws"
    using o12 by (auto simp: only_logs_def prefix_def)
  show ?thesis
  proof (cases "MkdirAll E (FilepathDir E fileName)")
    case (Some err)
    let ?s' = "level_Error_Log E
                 [StrV ''Failed to create directory'', StrV ''dpath'',
                  StrV (FilepathDir E fileName), StrV ''err'', ErrV err] s2"
    have b: "modeLoopBody E logsPath cfg dln df mode cls s = Proceed cls ?s'"
      using assms(1-4) g1 g2 Some by (simp add: modeLoopBody_def Let_def)
    have o: "only_logs s ?s'"
      using o12 level_Error_Log_only_logs by (rule only_logs_trans)
    have l: "written ?s' = written s @ ws @
             [(logger (heap s ! concrete (root s)),
               [LevelKeyV, LevelV ErrorValue, StrV ''Failed to create directory'', StrV ''dpath'',
                StrV (FilepathDir E fileName), StrV ''err'', ErrV err])]"
      by (simp add: level_Error_Log_written hr ws)
    show ?thesis
      using b o l Some by blast
  next
    case None
    then obtain err where
      f: "FileInit E (configureFileWriter E cfg ''log.file'' fileName format) = Some err"
      using assms(5) by auto
    let ?s' = "level_Error_Log E
                 [StrV ''Failed to initialize file handler'', StrV ''dpath'',
                  StrV (FilepathDir E fileName), StrV ''err'', ErrV err] s2"
    have b: "modeLoopBody E logsPath cfg dln df mode cls s = Proceed cls ?s'"
      using assms(1-4) g1 g2 None f by (simp add: modeLoopBody_def Let_def)
    have o: "only_logs s ?s'"
      using o12 level_Error_Log_only_logs by (rule only_logs_trans)
    have l: "written ?s' = written s @ ws @
             [(logger (heap s ! concrete (root s)),
               [LevelKeyV, LevelV ErrorValue, StrV ''Failed to initialize file handler'',
                StrV ''dpath'', StrV (FilepathDir E fileName), StrV ''err'', ErrV err])]"
      by (simp add: level_Error_Log_written hr ws)
    show ?thesis
      using b o l f by blast
  qed
qed

lemma modeLoopBody_known:
  assumes "known_mode E cfg mode"
  shows "\<exists>cls' s'. modeLoopBody E logsPath cfg dln df mode cls s = Proceed cls' s' \<and>
                   heap s' = heap s \<and> root s' = root s"
proof -
  let ?m = "TrimSpace E mode"
  have sec: "GetSectionErr cfg (''log.'' @ ?m) = None"
    and kind: "?m = ''console'' \<or> ?m = ''file'' \<or> ?m = ''syslog''"
    using assms by (simp_all add: known_mode_def)
  obtain levelName lv s1 where
    g1: "getLogLevelFromConfig E (''log.'' @ ?m) dln cfg s = (levelName, lv, s1)"
    by (cases "getLogLevelFromConfig E (''log.'' @ ?m) dln cfg s") auto
  obtain mf s2 where g2:
    "getFilters E (SplitString E (KeyString cfg (''log.'' @ ?m) ''filters'')) s1 = (mf, s2)"
    by (cases "getFilters E (SplitString E (KeyString cfg (''log.'' @ ?m) ''filters'')) s1")
  have o12: "only_logs s s2"
    using getLogLevelFromConfig_only_logs[OF g1] getFilters_only_logs[OF g2]
    by (rule only_logs_trans)
  have hr: "heap s2 = heap s" "root s2 = root s"
    using only_logs_heap_root[OF o12] by simp_all
  have e: "heap (level_Error_Log E kvs s2) = heap s \<and> root (level_Error_Log E kvs s2) = root s"
    for kvs
    using only_logs_heap_root[OF level_Error_Log_only_logs[of s2 E kvs]] hr by simp
  from kind show ?thesis
  proof (elim disjE)
    assume "?m = ''console''"
    then show ?thesis
      using sec g1 g2 hr by (simp add: modeLoopBody_def Let_def appendHandler_def)
  next
    assume "?m = ''file''"
    then show ?thesis
      using sec g1 g2 hr e
      by (simp add: modeLoopBody_def Let_def appendHandler_def split: option.splits)
  next
    assume "?m = ''syslog''"
    then show ?thesis
      using sec g1 g2 hr by (simp add: modeLoopBody_def Let_def appendHandler_def)
  qed
qed

lemma modes_loop_append:
  "modes_loop E logsPath cfg dln df (pre @ post) cls s =
     (case modes_loop E logsPath cfg dln df pre cls s of
        Proceed cls1 s1 \<Rightarrow> modes_loop E logsPath cfg dln df post cls1 s1
      | Abort err s1 \<Rightarrow> Abort err s1
      | Panicked m s1 \<Rightarrow> Panicked m s1)"
  by (induction pre arbitrary: cls s) (simp_all split: mode_result.splits)

lemma modes_loop_known:
  assumes "list_all (known_mode E cfg) ms"
  shows "\<exists>cls' s'. modes_loop E logsPath cfg dln df ms cls s = Proceed cls' s' \<and>
                   heap s' = heap s \<and> root s' = root s"
  using assms
proof (induction ms arbitrary: cls s)
  case Nil
  then show ?case by simp
next
  case (Cons m ms)
  obtain cls1 s1 where b: "modeLoopBody E logsPath cfg dln df m cls s = Proceed cls1 s1"
    "heap s1 = heap s" "root s1 = root s"
    using modeLoopBody_known[of E cfg m logsPath dln df cls s] Cons.prems by auto
  obtain cls2 s2 where r: "modes_loop E logsPath cfg dln df ms cls1 s1 = Proceed cls2 s2"
    "heap s2 = heap s1" "root s2 = root s1"
    using Cons.IH[of cls1 s1] Cons.prems by auto
  show ?case
    using b r by simp
qed

lemma Close_frame:
  "heap (snd (Close E s)) = heap s" "root (snd (Close E s)) = root s"
  "written (snd (Close E s)) = written s"
  by (simp_all add: Close_def split: prod.splits)

lemma ReadLoggingConfig_unfold:
  assumes "Close E s = (None, s0)"
    and "getLogLevelFromConfig E ''log'' ''info'' cfg s0 = (dln, lv, s1)"
    and "getFilters E (SplitString E (KeyString cfg ''log'' ''filters'')) s1 = (df, s2)"
  shows "ReadLoggingConfig E modes logsPath cfg s =
           (case modes_loop E logsPath cfg dln df modes [] s2 of
              Abort err s3 \<Rightarrow> (Returned (Some err), s3)
            | Panicked m s3 \<Rightarrow> (Panic m, s3)
            | Proceed configLoggers s3 \<Rightarrow>
                (Returned None,
                 if length configLoggers > 0 then initialize configLoggers s3 else s3))"
    and "heap s2 = heap s" and "root s2 = root s" and "prefix (written s) (written s2)"
proof -
  show "ReadLoggingConfig E modes logsPath cfg s =
           (case modes_loop E logsPath cfg dln df modes [] s2 of
              Abort err s3 \<Rightarrow> (Returned (Some err), s3)
            | Panicked m s3 \<Rightarrow> (Panic m, s3)
            | Proceed configLoggers s3 \<Rightarrow>
                (Returned None,
                 if length configLoggers > 0 then initialize configLoggers s3 else s3))"
    using assms by (simp add: ReadLoggingConfig_def)
  have "only_logs s0 s2"
    using getLogLevelFromConfig_only_logs[OF assms(2)] getFilters_only_logs[OF assms(3)]
    by (rule only_logs_trans)
  then show "heap s2 = heap s" and "root s2 = root s" and "prefix (written s) (written s2)"
    using Close_frame[of E s] assms(1) by (simp_all add: only_logs_def)
qed

lemma known_modes_never_fail:
  assumes "fst (Close E s) = None" and "list_all (known_mode E cfg) modes"
  shows "fst (ReadLoggingConfig E modes logsPath cfg s) = Returned None"
proof -
  obtain s0 where c: "Close E s = (None, s0)"
    using assms(1) by (cases "Close E s") auto
  obtain dln lv s1 where g1: "getLogLevelFromConfig E ''log'' ''info'' cfg s0 = (dln, lv, s1)"
    by (cases "getLogLevelFromConfig E ''log'' ''info'' cfg s0") auto
  obtain df s2 where g2:
    "getFilters E (SplitString E (KeyString cfg ''log'' ''filters'')) s1 = (df, s2)"
    by (cases "getFilters E (SplitString E (KeyString cfg ''log'' ''filters'')) s1")
  obtain cls' s' where "modes_loop E logsPath cfg dln df modes [] s2 = Proceed cls' s'"
    using modes_loop_known[OF assms(2)] by blast
  then show ?thesis
    by (simp add: ReadLoggingConfig_unfold(1)[OF c g1 g2])
qed

subsection \<open>Runs that differ only in what was logged\<close>

lemma same_config_refl: "same_config s s"
  by (simp add: same_config_def)

lemma only_logs_same_config: "only_logs s s' \<Longrightarrow> same_config s s'"
  by (simp add: only_logs_def same_config_def)

lemma same_config_step:
  "same_config s t \<Longrightarrow> only_logs s s' \<Longrightarrow> only_logs t t' \<Longrightarrow> same_config s' t'"
  by (simp add: only_logs_def same_config_def)

lemma level_of_state: "fst (getLogLevelFromString E n s) = fst (getLogLevelFromString E n t)"
  by (simp add: getLogLevelFromString_def split: option.splits)

lemma getLogLevelFromConfig_same:
  assumes "getLogLevelFromConfig E key d cfg s = (n, lv, s1)"
    and "getLogLevelFromConfig E key d cfg t = (n', lv', t1)"
  shows "n' = n \<and> lv' = lv"
  using assms level_of_state[of E "ToLower E (MustString (KeyString cfg key ''level'') d)" s t]
  by (auto simp: getLogLevelFromConfig_def Let_def split: prod.splits)

lemma getFilters_loop_same: "fst (getFilters_loop E fs m s) = fst (getFilters_loop E fs m t)"
proof (induction fs arbitrary: m s t)
  case Nil
  then show ?case by simp
next
  case (Cons f fs)
  show ?case
  proof (cases "length (strings_Split CHR '':'' f) > 1")
    case True
    obtain lv s0 where g: "getLogLevelFromString E (strings_Split CHR '':'' f ! 1) s = (lv, s0)"
      by (cases "getLogLevelFromString E (strings_Split CHR '':'' f ! 1) s")
    obtain lv' t0 where g': "getLogLevelFromString E (strings_Split CHR '':'' f ! 1) t = (lv', t0)"
      by (cases "getLogLevelFromString E (strings_Split CHR '':'' f ! 1) t")
    have lv: "lv' = lv"
      using level_of_state[of E "strings_Split CHR '':'' f ! 1" s t] g g' by simp
    have e1: "getFilters_loop E (f # fs) m s =
              getFilters_loop E fs (m(strings_Split CHR '':'' f ! 0 \<mapsto> lv)) s0"
      using True g by (simp add: Let_def)
    have e2: "getFilters_loop E (f # fs) m t =
              getFilters_loop E fs (m(strings_Split CHR '':'' f ! 0 \<mapsto> lv)) t0"
      using True g' lv by (simp add: Let_def)
    show ?thesis
      unfolding e1 e2 by (rule Cons.IH)
  next
    case False
    then show ?thesis
      using Cons.IH[of m s t] by (simp add: Let_def)
  qed
qed

lemma getFilters_same:
  assumes "getFilters E fs s = (m, s1)" and "getFilters E fs t = (m', t1)"
  shows "m' = m"
  using assms getFilters_loop_same[of E fs Map.empty s t] by (simp add: getFilters_def)

lemma level_Error_Log_same:
  "same_config s t \<Longrightarrow> same_config (level_Error_Log E kvs s) (level_Error_Log E kvs t)"
  by (rule same_config_step[OF _ level_Error_Log_only_logs level_Error_Log_only_logs])

lemma modeLoopBody_same:
  assumes "same_config s t"
  shows "same_result (modeLoopBody E logsPath cfg dln df m cls s)
                     (modeLoopBody E logsPath cfg dln df m cls t)"
proof (cases "GetSectionErr cfg (''log.'' @ TrimSpace E m)")
  case (Some err)
  then show ?thesis
    using level_Error_Log_same[OF assms] by (simp add: modeLoopBody_def Let_def)
next
  case None
  let ?sec = "''log.'' @ TrimSpace E m"
  obtain n lv s1 where g1: "getLogLevelFromConfig E ?sec dln cfg s = (n, lv, s1)"
    by (cases "getLogLevelFromConfig E ?sec dln cfg s") auto
  obtain n' lv' t1 where h1: "getLogLevelFromConfig E ?sec dln cfg t = (n', lv', t1)"
    by (cases "getLogLevelFromConfig E ?sec dln cfg t") auto
  obtain mf s2 where g2: "getFilters E (SplitString E (KeyString cfg ?sec ''filters'')) s1 = (mf, s2)"
    by (cases "getFilters E (SplitString E (KeyString cfg ?sec ''filters'')) s1")
  obtain mf' t2 where h2: "getFilters E (SplitString E (KeyString cfg ?sec ''filters'')) t1 = (mf', t2)"
    by (cases "getFilters E (SplitString E (KeyString cfg ?sec ''filters'')) t1")
  have v: "n' = n" "lv' = lv" "mf' = mf"
    using getLogLevelFromConfig_same[OF g1 h1] getFilters_same[OF g2 h2] by simp_all
  have c1: "same_config s1 t1"
    using assms getLogLevelFromConfig_only_logs[OF g1] getLogLevelFromConfig_only_logs[OF h1]
    by (rule same_config_step)
  have c2: "same_config s2 t2"
    using c1 getFilters_only_logs[OF g2] getFilters_only_logs[OF h2]
    by (rule same_config_step)
  have c3: "same_config (level_Error_Log E kvs s2) (level_Error_Log E kvs t2)" for kvs
    using c2 by (rule level_Error_Log_same)
  have c4: "same_config (s2\<lparr>loggersToClose := loggersToClose s2 @ hs\<rparr>)
                        (t2\<lparr>loggersToClose := loggersToClose t2 @ hs\<rparr>)"
    "same_config (s2\<lparr>loggersToClose := loggersToClose s2 @ hs,
                       loggersToReload := loggersToReload s2 @ hs\<rparr>)
                 (t2\<lparr>loggersToClose := loggersToClose t2 @ hs,
                       loggersToReload := loggersToReload t2 @ hs\<rparr>)" for hs
    using c2 by (simp_all add: same_config_def)
  show ?thesis
    using None g1 h1 g2 h2 v c2 c3 c4
    by (simp add: modeLoopBody_def Let_def appendHandler_def split: option.splits)
qed

lemma modes_loop_same:
  "same_config s t \<Longrightarrow>
   same_result (modes_loop E logsPath cfg dln df ms cls s)
               (modes_loop E logsPath cfg dln df ms cls t)"
proof (induction ms arbitrary: cls s t)
  case Nil
  then show ?case by simp
next
  case (Cons m ms)
  have b: "same_result (modeLoopBody E logsPath cfg dln df m cls s)
                       (modeLoopBody E logsPath cfg dln df m cls t)"
    using Cons.prems by (rule modeLoopBody_same)
  show ?case
  proof (cases "modeLoopBody E logsPath cfg dln df m cls s")
    case (Proceed c1 s1)
    then obtain t1 where t: "modeLoopBody E logsPath cfg dln df m cls t = Proceed c1 t1"
      "same_config s1 t1"
      using b by (cases "modeLoopBody E logsPath cfg dln df m cls t") simp_all
    show ?thesis
      using Proceed t Cons.IH[OF t(2), of c1] by simp
  next
    case (Abort e s1)
    then show ?thesis
      using b by (cases "modeLoopBody E logsPath cfg dln df m cls t") simp_all
  next
    case (Panicked n s1)
    then show ?thesis
      using b by (cases "modeLoopBody E logsPath cfg dln df m cls t") simp_all
  qed
qed

lemma SetLogger_traces:
  "ConcreteLogger_SetLogger a lg (s\<lparr>written := w, stdlog := l\<rparr>) =
   (ConcreteLogger_SetLogger a lg s)\<lparr>written := w, stdlog := l\<rparr>"
  by (simp add: ConcreteLogger_SetLogger_def)

lemma named_traces:
  "initialize_named L n (s\<lparr>written := w, stdlog := l\<rparr>) =
   (initialize_named L n s)\<lparr>written := w, stdlog := l\<rparr>"
  by (simp add: initialize_named_def SetLogger_traces split: option.splits)

lemma fold_named_traces:
  "fold (initialize_named L) ns (s\<lparr>written := w, stdlog := l\<rparr>) =
   (fold (initialize_named L) ns s)\<lparr>written := w, stdlog := l\<rparr>"
  by (induction ns arbitrary: s) (simp_all add: named_traces)

lemma root_traces: "root (x\<lparr>written := w, stdlog := l\<rparr>) = root x"
  by simp

lemma swap_traces:
  "(x\<lparr>written := w, stdlog := l\<rparr>)\<lparr>root := r\<rparr> = (x\<lparr>root := r\<rparr>)\<lparr>written := w, stdlog := l\<rparr>"
  by simp

lemma initialize_traces:
  "initialize L (s\<lparr>written := w, stdlog := l\<rparr>) = (initialize L s)\<lparr>written := w, stdlog := l\<rparr>"
  by (simp only: initialize_def Let_def SetLogger_traces root_traces swap_traces
      fold_named_traces)

lemma same_config_traces: "same_config s t \<Longrightarrow> t = s\<lparr>written := written t, stdlog := stdlog t\<rparr>"
  by (simp add: same_config_def)

lemma initialize_same:
  assumes "same_config s t"
  shows "same_config (initialize L s) (initialize L t)"
proof -
  have "initialize L t = (initialize L s)\<lparr>written := written t, stdlog := stdlog t\<rparr>"
    using same_config_traces[OF assms] initialize_traces[where L = L and s = s and w = "written t" and l = "stdlog t"] by simp
  then show ?thesis
    by (simp add: same_config_def)
qed

lemma sink_of_mode_failure:
  assumes "TrimSpace E mode = ''file''"
    and "fileName = MustString (KeyString cfg ''log.file'' ''file_name'')
                      (FilepathJoin E logsPath ''grafana.log'')"
    and "format = getLogFormat E (MustString (KeyString cfg ''log.file'' ''format'') [])"
    and "MkdirAll E (FilepathDir E fileName) \<noteq> None \<or>
         FileInit E (configureFileWriter E cfg ''log.file'' fileName format) \<noteq> None"
  shows "sink_of_mode E logsPath cfg mode = None"
  using assms by (auto simp: sink_of_mode_def Let_def)

lemma modeLoopBody_grows:
  "heap (result_state (modeLoopBody E logsPath cfg dln df m cls s)) = heap s \<and>
   root (result_state (modeLoopBody E logsPath cfg dln df m cls s)) = root s \<and>
   prefix (written s) (written (result_state (modeLoopBody E logsPath cfg dln df m cls s)))"
proof (cases "GetSectionErr cfg (''log.'' @ TrimSpace E m)")
  case (Some err)
  then show ?thesis
    using level_Error_Log_only_logs[of s E "[StrV ''Unknown log mode'', StrV ''mode'', StrV (TrimSpace E m)]"]
    by (simp add: modeLoopBody_def Let_def only_logs_def)
next
  case None
  let ?sec = "''log.'' @ TrimSpace E m"
  obtain n lv s1 where g1: "getLogLevelFromConfig E ?sec dln cfg s = (n, lv, s1)"
    by (cases "getLogLevelFromConfig E ?sec dln cfg s") auto
  obtain mf s2 where g2: "getFilters E (SplitString E (KeyString cfg ?sec ''filters'')) s1 = (mf, s2)"
    by (cases "getFilters E (SplitString E (KeyString cfg ?sec ''filters'')) s1")
  have o: "only_logs s s2"
    using getLogLevelFromConfig_only_logs[OF g1] getFilters_only_logs[OF g2]
    by (rule only_logs_trans)
  have o2: "heap s2 = heap s" "root s2 = root s" "prefix (written s) (written s2)"
    using o by (simp_all add: only_logs_def)
  have e: "heap (level_Error_Log E kvs s2) = heap s \<and> root (level_Error_Log E kvs s2) = root s \<and>
           prefix (written s) (written (level_Error_Log E kvs s2))" for kvs
    using only_logs_trans[OF o level_Error_Log_only_logs[of s2 E kvs]]
    by (simp add: only_logs_def)
  show ?thesis
    using None g1 g2 o2 e
    by (simp add: modeLoopBody_def Let_def appendHandler_def split: option.splits)
qed

lemma modes_loop_grows:
  "heap (result_state (modes_loop E logsPath cfg dln df ms cls s)) = heap s \<and>
   root (result_state (modes_loop E logsPath cfg dln df ms cls s)) = root s \<and>
   prefix (written s) (written (result_state (modes_loop E logsPath cfg dln df ms cls s)))"
proof (induction ms arbitrary: cls s)
  case Nil
  then show ?case by simp
next
  case (Cons m ms)
  note b = modeLoopBody_grows[of E logsPath cfg dln df m cls s]
  show ?case
  proof (cases "modeLoopBody E logsPath cfg dln df m cls s")
    case (Proceed c1 s1)
    have "prefix (written s) (written s1)" "heap s1 = heap s" "root s1 = root s"
      using b Proceed by simp_all
    then show ?thesis
      using Proceed Cons.IH[of c1 s1] by (auto intro: prefix_order.trans)
  next
    case (Abort e s1)
    then show ?thesis using b by simp
  next
    case (Panicked n s1)
    then show ?thesis using b by simp
  qed
qed

lemma modeLoopBody_known_vals:
  assumes "known_mode E cfg m"
  shows "\<exists>cls' s'. modeLoopBody E logsPath cfg dln df m cls s = Proceed cls' s' \<and>
           map val cls' =
             map val cls @ (case sink_of_mode E logsPath cfg m of None \<Rightarrow> [] | Some v \<Rightarrow> [v])"
proof -
  let ?m = "TrimSpace E m"
  have sec: "GetSectionErr cfg (''log.'' @ ?m) = None"
    and kind: "?m = ''console'' \<or> ?m = ''file'' \<or> ?m = ''syslog''"
    using assms by (simp_all add: known_mode_def)
  obtain levelName lv s1 where
    g1: "getLogLevelFromConfig E (''log.'' @ ?m) dln cfg s = (levelName, lv, s1)"
    by (cases "getLogLevelFromConfig E (''log.'' @ ?m) dln cfg s") auto
  obtain mf s2 where g2:
    "getFilters E (SplitString E (KeyString cfg (''log.'' @ ?m) ''filters'')) s1 = (mf, s2)"
    by (cases "getFilters E (SplitString E (KeyString cfg (''log.'' @ ?m) ''filters'')) s1")
  from kind show ?thesis
  proof (elim disjE)
    assume "?m = ''console''"
    then show ?thesis
      using sec g1 g2
      by (simp add: modeLoopBody_def sink_of_mode_def Let_def appendHandler_def)
  next
    assume "?m = ''file''"
    then show ?thesis
      using sec g1 g2
      by (auto simp: modeLoopBody_def sink_of_mode_def Let_def appendHandler_def
          split: option.splits)
  next
    assume "?m = ''syslog''"
    then show ?thesis
      using sec g1 g2
      by (simp add: modeLoopBody_def sink_of_mode_def Let_def appendHandler_def)
  qed
qed

lemma modes_loop_known_vals:
  assumes "list_all (known_mode E cfg) ms"
  shows "\<exists>cls' s'. modes_loop E logsPath cfg dln df ms cls s = Proceed cls' s' \<and>
           map val cls' = map val cls @ List.map_filter (sink_of_mode E logsPath cfg) ms"
  using assms
proof (induction ms arbitrary: cls s)
  case Nil
  then show ?case by (simp add: List.map_filter_simps)
next
  case (Cons m ms)
  obtain cls1 s1 where b: "modeLoopBody E logsPath cfg dln df m cls s = Proceed cls1 s1"
    "map val cls1 =
       map val cls @ (case sink_of_mode E logsPath cfg m of None \<Rightarrow> [] | Some v \<Rightarrow> [v])"
    using modeLoopBody_known_vals[of E cfg m logsPath dln df cls s] Cons.prems by auto
  obtain cls2 s2 where r: "modes_loop E logsPath cfg dln df ms cls1 s1 = Proceed cls2 s2"
    "map val cls2 = map val cls1 @ List.map_filter (sink_of_mode E logsPath cfg) ms"
    using Cons.IH[of cls1 s1] Cons.prems by auto
  show ?case
    using b r by (simp split: option.splits)
qed

lemma map_filter_append:
  "List.map_filter f (xs @ ys) = List.map_filter f xs @ List.map_filter f ys"
  by (simp add: List.map_filter_def)

lemma finish_same:
  assumes "same_result r1 r2"
  shows "fst (case r1 of
                Abort err s3 \<Rightarrow> (Returned (Some err), s3)
              | Panicked m s3 \<Rightarrow> (Panic m, s3)
              | Proceed configLoggers s3 \<Rightarrow>
                  (Returned None,
                   if length configLoggers > 0 then initialize configLoggers s3 else s3)) =
         fst (case r2 of
                Abort err s3 \<Rightarrow> (Returned (Some err), s3)
              | Panicked m s3 \<Rightarrow> (Panic m, s3)
              | Proceed configLoggers s3 \<Rightarrow>
                  (Returned None,
                   if length configLoggers > 0 then initialize configLoggers s3 else s3)) \<and>
         same_config
           (snd (case r1 of
                Abort err s3 \<Rightarrow> (Returned (Some err), s3)
              | Panicked m s3 \<Rightarrow> (Panic m, s3)
              | Proceed configLoggers s3 \<Rightarrow>
                  (Returned None,
                   if length configLoggers > 0 then initialize configLoggers s3 else s3)))
           (snd (case r2 of
                Abort err s3 \<Rightarrow> (Returned (Some err), s3)
              | Panicked m s3 \<Rightarrow> (Panic m, s3)
              | Proceed configLoggers s3 \<Rightarrow>
                  (Returned None,
                   if length configLoggers > 0 then initialize configLoggers s3 else s3)))"
  using assms by (cases r1; cases r2) (simp_all add: initialize_same)

lemma finish_written:
  "written (snd (case r of
                Abort err s3 \<Rightarrow> (Returned (Some err), s3)
              | Panicked m s3 \<Rightarrow> (Panic m, s3)
              | Proceed configLoggers s3 \<Rightarrow>
                  (Returned None,
                   if length configLoggers > 0 then initialize configLoggers s3 else s3))) =
   written (result_state r)"
  by (cases r) (simp_all add: initialize_rest)

lemma skipped_mode_same:
  assumes "TrimSpace E mode = ''file''"
    and "GetSectionErr cfg ''log.file'' = None"
    and "fileName = MustString (KeyString cfg ''log.file'' ''file_name'')
                      (FilepathJoin E logsPath ''grafana.log'')"
    and "format = getLogFormat E (MustString (KeyString cfg ''log.file'' ''format'') [])"
    and "MkdirAll E (FilepathDir E fileName) \<noteq> None \<or>
         FileInit E (configureFileWriter E cfg ''log.file'' fileName format) \<noteq> None"
  shows "same_result (modes_loop E logsPath cfg dln df (pre @ rest) cls s)
                     (modes_loop E logsPath cfg dln df (pre @ mode # rest) cls s)"
proof (cases "modes_loop E logsPath cfg dln df pre cls s")
  case (Proceed c3 s3)
  obtain s4 where b: "modeLoopBody E logsPath cfg dln df mode c3 s3 = Proceed c3 s4"
    and o: "only_logs s3 s4"
    using modeLoopBody_file_failure[OF assms, of dln df c3 s3] by blast
  have "same_result (modes_loop E logsPath cfg dln df rest c3 s3)
                    (modes_loop E logsPath cfg dln df rest c3 s4)"
    using only_logs_same_config[OF o] by (rule modes_loop_same)
  then show ?thesis
    using Proceed b by (simp add: modes_loop_append)
next
  case (Abort e s3)
  then show ?thesis by (simp add: modes_loop_append same_config_refl)
next
  case (Panicked n s3)
  then show ?thesis by (simp add: modes_loop_append same_config_refl)
qed

lemma skipped_mode_outcome:
  assumes "TrimSpace E mode = ''file''"
    and "GetSectionErr cfg ''log.file'' = None"
    and "fileName = MustString (KeyString cfg ''log.file'' ''file_name'')
                      (FilepathJoin E logsPath ''grafana.log'')"
    and "format = getLogFormat E (MustString (KeyString cfg ''log.file'' ''format'') [])"
    and "MkdirAll E (FilepathDir E fileName) \<noteq> None \<or>
         FileInit E (configureFileWriter E cfg ''log.file'' fileName format) \<noteq> None"
  shows "fst (ReadLoggingConfig E (pre @ rest) logsPath cfg s) =
         fst (ReadLoggingConfig E (pre @ mode # rest) logsPath cfg s) \<and>
         same_config (snd (ReadLoggingConfig E (pre @ rest) logsPath cfg s))
                     (snd (ReadLoggingConfig E (pre @ mode # rest) logsPath cfg s))"
proof (cases "Close E s")
  case (Pair r s0)
  show ?thesis
  proof (cases r)
    case (Some e)
    then show ?thesis
      using Pair by (simp add: ReadLoggingConfig_def same_config_refl)
  next
    case None
    then have c: "Close E s = (None, s0)" using Pair by simp
    obtain dln lv s1 where g1: "getLogLevelFromConfig E ''log'' ''info'' cfg s0 = (dln, lv, s1)"
      by (cases "getLogLevelFromConfig E ''log'' ''info'' cfg s0") auto
    obtain df s2 where g2:
      "getFilters E (SplitString E (KeyString cfg ''log'' ''filters'')) s1 = (df, s2)"
      by (cases "getFilters E (SplitString E (KeyString cfg ''log'' ''filters'')) s1")
    show ?thesis
      unfolding ReadLoggingConfig_unfold(1)[OF c g1 g2]
      by (rule finish_same[OF skipped_mode_same[OF assms]])
  qed
qed

lemma skipped_mode_logged:
  assumes "TrimSpace E mode = ''file''"
    and "GetSectionErr cfg ''log.file'' = None"
    and "fileName = MustString (KeyString cfg ''log.file'' ''file_name'')
                      (FilepathJoin E logsPath ''grafana.log'')"
    and "format = getLogFormat E (MustString (KeyString cfg ''log.file'' ''format'') [])"
    and "MkdirAll E (FilepathDir E fileName) \<noteq> None \<or>
         FileInit E (configureFileWriter E cfg ''log.file'' fileName format) \<noteq> None"
    and "fst (Close E s) = None"
    and "list_all (known_mode E cfg) pre"
  shows "\<exists>msg err ws zs.
           written (snd (ReadLoggingConfig E (pre @ mode # rest) logsPath cfg s)) =
             written s @ ws @
             [(logger (heap s ! concrete (root s)),
               [LevelKeyV, LevelV ErrorValue, StrV msg, StrV ''dpath'',
                StrV (FilepathDir E fileName), StrV ''err'', ErrV err])] @ zs \<and>
           (msg = ''Failed to create directory'' \<and> MkdirAll E (FilepathDir E fileName) = Some err \<or>
            msg = ''Failed to initialize file handler'' \<and>
            FileInit E (configureFileWriter E cfg ''log.file'' fileName format) = Some err)"
proof -
  obtain s0 where c: "Close E s = (None, s0)"
    using assms(6) by (cases "Close E s") auto
  obtain dln lv s1 where g1: "getLogLevelFromConfig E ''log'' ''info'' cfg s0 = (dln, lv, s1)"
    by (cases "getLogLevelFromConfig E ''log'' ''info'' cfg s0") auto
  obtain df s2 where g2:
    "getFilters E (SplitString E (KeyString cfg ''log'' ''filters'')) s1 = (df, s2)"
    by (cases "getFilters E (SplitString E (KeyString cfg ''log'' ''filters'')) s1")
  note u = ReadLoggingConfig_unfold[OF c g1 g2]
  obtain c3 s3 where p: "modes_loop E logsPath cfg dln df pre [] s2 = Proceed c3 s3"
    using modes_loop_known[OF assms(7), of logsPath dln df "[]" s2] by blast
  have p': "heap s3 = heap s2" "root s3 = root s2" "prefix (written s2) (written s3)"
    using modes_loop_grows[of E logsPath cfg dln df pre "[]" s2] p by simp_all
  obtain s4 msg err ws where
    b: "modeLoopBody E logsPath cfg dln df mode c3 s3 = Proceed c3 s4"
    and w: "written s4 = written s3 @ ws @
             [(logger (heap s3 ! concrete (root s3)),
               [LevelKeyV, LevelV ErrorValue, StrV msg, StrV ''dpath'',
                StrV (FilepathDir E fileName), StrV ''err'', ErrV err])]"
    and d: "msg = ''Failed to create directory'' \<and> MkdirAll E (FilepathDir E fileName) = Some err \<or>
            msg = ''Failed to initialize file handler'' \<and>
            FileInit E (configureFileWriter E cfg ''log.file'' fileName format) = Some err"
    using modeLoopBody_file_failure[OF assms(1-5), of dln df c3 s3] by blast
  let ?r = "modes_loop E logsPath cfg dln df rest c3 s4"
  have l: "modes_loop E logsPath cfg dln df (pre @ mode # rest) [] s2 = ?r"
    using p b by (simp add: modes_loop_append)
  have f: "written (snd (ReadLoggingConfig E (pre @ mode # rest) logsPath cfg s)) =
           written (result_state ?r)"
    unfolding u(1) l by (rule finish_written)
  obtain a where a: "written s2 = written s @ a"
    using u(4) by (auto simp: prefix_def)
  obtain a' where a': "written s3 = written s2 @ a'"
    using p'(3) by (auto simp: prefix_def)
  obtain zs where zs: "written (result_state ?r) = written s4 @ zs"
    using modes_loop_grows[of E logsPath cfg dln df rest c3 s4] by (auto simp: prefix_def)
  have "written (snd (ReadLoggingConfig E (pre @ mode # rest) logsPath cfg s)) =
          written s @ (a @ a' @ ws) @
             [(logger (heap s ! concrete (root s)),
               [LevelKeyV, LevelV ErrorValue, StrV msg, StrV ''dpath'',
                StrV (FilepathDir E fileName), StrV ''err'', ErrV err])] @ zs"
    by (simp add: f zs w a a' p'(1,2) u(2,3))
  then show ?thesis
    using d by blast
qed

lemma wf_registry_cong: "heap t = heap s \<Longrightarrow> root t = root s \<Longrightarrow> wf_registry t = wf_registry s"
  by (simp add: wf_registry_def)

lemma skipped_mode_installed:
  assumes "TrimSpace E mode = ''file''"
    and "GetSectionErr cfg ''log.file'' = None"
    and "fileName = MustString (KeyString cfg ''log.file'' ''file_name'')
                      (FilepathJoin E logsPath ''grafana.log'')"
    and "format = getLogFormat E (MustString (KeyString cfg ''log.file'' ''format'') [])"
    and "MkdirAll E (FilepathDir E fileName) \<noteq> None \<or>
         FileInit E (configureFileWriter E cfg ''log.file'' fileName format) \<noteq> None"
    and "fst (Close E s) = None"
    and "list_all (known_mode E cfg) (pre @ rest)"
  shows "fst (ReadLoggingConfig E (pre @ mode # rest) logsPath cfg s) = Returned None \<and>
         map val (logFilters (root (snd (ReadLoggingConfig E (pre @ mode # rest) logsPath cfg s)))) =
           (if List.map_filter (sink_of_mode E logsPath cfg) (pre @ rest) = []
            then map val (logFilters (root s))
            else List.map_filter (sink_of_mode E logsPath cfg) (pre @ rest)) \<and>
         (wf_registry s \<and> List.map_filter (sink_of_mode E logsPath cfg) (pre @ rest) \<noteq> [] \<longrightarrow>
            logger (heap (snd (ReadLoggingConfig E (pre @ mode # rest) logsPath cfg s)) !
                      concrete (root s)) =
              With (CompositeLogger
                      (map (\<lambda>lw. NewFilter (val lw) (maxLevel lw))
                         (logFilters (root (snd (ReadLoggingConfig E (pre @ mode # rest)
                                                   logsPath cfg s))))))
                (ctx (heap s ! concrete (root s))))"
proof -
  obtain s0 where c: "Close E s = (None, s0)"
    using assms(6) by (cases "Close E s") auto
  obtain dln lv s1 where g1: "getLogLevelFromConfig E ''log'' ''info'' cfg s0 = (dln, lv, s1)"
    by (cases "getLogLevelFromConfig E ''log'' ''info'' cfg s0") auto
  obtain df s2 where g2:
    "getFilters E (SplitString E (KeyString cfg ''log'' ''filters'')) s1 = (df, s2)"
    by (cases "getFilters E (SplitString E (KeyString cfg ''log'' ''filters'')) s1")
  note u = ReadLoggingConfig_unfold[OF c g1 g2]
  have km: "known_mode E cfg mode"
    using assms(1,2) by (simp add: known_mode_def)
  have k: "list_all (known_mode E cfg) (pre @ mode # rest)"
    using assms(7) km by simp
  let ?vals = "List.map_filter (sink_of_mode E logsPath cfg) (pre @ rest)"
  have skip: "List.map_filter (sink_of_mode E logsPath cfg) (pre @ mode # rest) = ?vals"
    using sink_of_mode_failure[OF assms(1,3,4,5)]
    by (simp add: map_filter_append List.map_filter_simps)
  obtain cls sF where l: "modes_loop E logsPath cfg dln df (pre @ mode # rest) [] s2 = Proceed cls sF"
    and v: "map val cls = ?vals"
    using modes_loop_known_vals[OF k, of logsPath dln df "[]" s2] skip by auto
  have hr: "heap sF = heap s" "root sF = root s"
    using modes_loop_grows[of E logsPath cfg dln df "pre @ mode # rest" "[]" s2] l u(2,3)
    by simp_all
  have r: "ReadLoggingConfig E (pre @ mode # rest) logsPath cfg s =
           (Returned None, if length cls > 0 then initialize cls sF else sF)"
    by (simp add: u(1) l)
  show ?thesis
  proof (cases "cls = []")
    case True
    then show ?thesis
      using v hr by (simp add: r)
  next
    case False
    then have ne: "?vals \<noteq> []" using v by auto
    have w: "wf_registry s \<Longrightarrow>
             logger (heap (initialize cls sF) ! concrete (root s)) =
               With (CompositeLogger (map (\<lambda>lw. NewFilter (val lw) (maxLevel lw)) cls))
                 (ctx (heap s ! concrete (root s)))"
      using initialize_root_logger[of sF cls] wf_registry_cong[OF hr] hr by simp
    show ?thesis
      using False ne v w by (simp add: r initialize_root)
  qed
qed

text \<open>
  C5. A file sink whose directory cannot be created, or whose handler cannot be
  initialised, is skipped by \<^verbatim>\<open>ReadLoggingConfig\<close>: the call returns what it returns without
  that mode in the list and leaves the same configuration (store, manager, handler lists).
  When the mode is reached (\<^verbatim>\<open>Close\<close> succeeded and the modes before it were configured), the
  failure is among the records the call writes through the root logger, at error severity.
  When the other modes have their sections and handlers, the call returns nil and the
  manager holds exactly the sinks of the other modes, in order, installed in the root
  logger's composite.
\<close>

theorem failed_file_sink_is_skipped:
  assumes "TrimSpace E mode = ''file''"
    and "GetSectionErr cfg ''log.file'' = None"
    and "fileName = MustString (KeyString cfg ''log.file'' ''file_name'')
                      (FilepathJoin E logsPath ''grafana.log'')"
    and "format = getLogFormat E (MustString (KeyString cfg ''log.file'' ''format'') [])"
    and "MkdirAll E (FilepathDir E fileName) \<noteq> None \<or>
         FileInit E (configureFileWriter E cfg ''log.file'' fileName format) \<noteq> None"
  shows "fst (ReadLoggingConfig E (pre @ rest) logsPath cfg s) =
           fst (ReadLoggingConfig E (pre @ mode # rest) logsPath cfg s) \<and>
         same_config (snd (ReadLoggingConfig E (pre @ rest) logsPath cfg s))
                     (snd (ReadLoggingConfig E (pre @ mode # rest) logsPath cfg s)) \<and>
         (fst (Close E s) = None \<and> list_all (known_mode E cfg) pre \<longrightarrow>
            (\<exists>msg err ws zs.
               written (snd (ReadLoggingConfig E (pre @ mode # rest) logsPath cfg s)) =
                 written s @ ws @
                 [(logger (heap s ! concrete (root s)),
                   [LevelKeyV, LevelV ErrorValue, StrV msg, StrV ''dpath'',
                    StrV (FilepathDir E fileName), StrV ''err'', ErrV err])] @ zs \<and>
               (msg = ''Failed to create directory'' \<and>
                  MkdirAll E (FilepathDir E fileName) = Some err \<or>
                msg = ''Failed to initialize file handler'' \<and>
                  FileInit E (configureFileWriter E cfg ''log.file'' fileName format) = Some err))) \<and>
         (fst (Close E s) = None \<and> list_all (known_mode E cfg) (pre @ rest) \<longrightarrow>
            fst (ReadLoggingConfig E (pre @ mode # rest) logsPath cfg s) = Returned None \<and>
            map val (logFilters (root (snd (ReadLoggingConfig E (pre @ mode # rest)
                                              logsPath cfg s)))) =
              (if List.map_filter (sink_of_mode E logsPath cfg) (pre @ rest) = []
               then map val (logFilters (root s))
               else List.map_filter (sink_of_mode E logsPath cfg) (pre @ rest)) \<and>
            (wf_registry s \<and> List.map_filter (sink_of_mode E logsPath cfg) (pre @ rest) \<noteq> [] \<longrightarrow>
               logger (heap (snd (ReadLoggingConfig E (pre @ mode # rest) logsPath cfg s)) !
                         concrete (root s)) =
                 With (CompositeLogger
                         (map (\<lambda>lw. NewFilter (val lw) (maxLevel lw))
                            (logFilters (root (snd (ReadLoggingConfig E (pre @ mode # rest)
                                                      logsPath cfg s))))))
                   (ctx (heap s ! concrete (root s)))))"
proof (intro conjI impI)
  show "fst (ReadLoggingConfig E (pre @ rest) logsPath cfg s) =
        fst (ReadLoggingConfig E (pre @ mode # rest) logsPath cfg s)"
    using skipped_mode_outcome[OF assms] by simp
  show "same_config (snd (ReadLoggingConfig E (pre @ rest) logsPath cfg s))
                    (snd (ReadLoggingConfig E (pre @ mode # rest) logsPath cfg s))"
    using skipped_mode_outcome[OF assms] by simp
next
  assume "fst (Close E s) = None \<and> list_all (known_mode E cfg) pre"
  then show "\<exists>msg err ws zs.
               written (snd (ReadLoggingConfig E (pre @ mode # rest) logsPath cfg s)) =
                 written s @ ws @
                 [(logger (heap s ! concrete (root s)),
                   [LevelKeyV, LevelV ErrorValue, StrV msg, StrV ''dpath'',
                    StrV (FilepathDir E fileName), StrV ''err'', ErrV err])] @ zs \<and>
               (msg = ''Failed to create directory'' \<and>
                  MkdirAll E (FilepathDir E fileName) = Some err \<or>
                msg = ''Failed to initialize file handler'' \<and>
                  FileInit E (configureFileWriter E cfg ''log.file'' fileName format) = Some err)"
    using skipped_mode_logged[OF assms] by simp
next
  assume h: "fst (Close E s) = None \<and> list_all (known_mode E cfg) (pre @ rest)"
  note i = skipped_mode_installed[OF assms conjunct1[OF h] conjunct2[OF h]]
  show "fst (ReadLoggingConfig E (pre @ mode # rest) logsPath cfg s) = Returned None"
    using i by simp
  show "map val (logFilters (root (snd (ReadLoggingConfig E (pre @ mode # rest)
                                              logsPath cfg s)))) =
              (if List.map_filter (sink_of_mode E logsPath cfg) (pre @ rest) = []
               then map val (logFilters (root s))
               else List.map_filter (sink_of_mode E logsPath cfg) (pre @ rest))"
    using i by simp
  assume "wf_registry s \<and> List.map_filter (sink_of_mode E logsPath cfg) (pre @ rest) \<noteq> []"
  then show "logger (heap (snd (ReadLoggingConfig E (pre @ mode # rest) logsPath cfg s)) !
                         concrete (root s)) =
                 With (CompositeLogger
                         (map (\<lambda>lw. NewFilter (val lw) (maxLevel lw))
                            (logFilters (root (snd (ReadLoggingConfig E (pre @ mode # rest)
                                                      logsPath cfg s))))))
                   (ctx (heap s ! concrete (root s)))"
    using i by simp
qed

theorem failed_file_sink_is_skipped_witness:
  "TrimSpace readonly_env ''file'' = ''file'' \<and>
   GetSectionErr example_cfg ''log.file'' = None \<and>
   MkdirAll readonly_env (FilepathDir readonly_env ''data/log/grafana.log'') \<noteq> None \<and>
   fst (Close readonly_env (init_state example_env)) = None \<and>
   list_all (known_mode readonly_env example_cfg) [''console''] \<and>
   wf_registry (init_state example_env) \<and>
   List.map_filter (sink_of_mode readonly_env ''data/log'' example_cfg) [''console''] \<noteq> [] \<and>
   fst (ReadLoggingConfig readonly_env [''console''] ''data/log'' example_cfg
          (init_state example_env)) =
     fst (ReadLoggingConfig readonly_env [''file'', ''console''] ''data/log'' example_cfg
            (init_state example_env)) \<and>
   fst (ReadLoggingConfig readonly_env [''file'', ''console''] ''data/log'' example_cfg
          (init_state example_env)) = Returned None \<and>
   map val (logFilters (root (snd (ReadLoggingConfig readonly_env [''file'', ''console'']
       ''data/log'' example_cfg (init_state example_env))))) =
     [FormatLogger LogfmtLogger Stdout] \<and>
   logger (heap (snd (ReadLoggingConfig readonly_env [''file'', ''console'']
       ''data/log'' example_cfg (init_state example_env))) ! 0) =
     With (CompositeLogger
             (map (\<lambda>lw. NewFilter (val lw) (maxLevel lw))
                (logFilters (root (snd (ReadLoggingConfig readonly_env [''file'', ''console'']
                   ''data/log'' example_cfg (init_state example_env))))))) [] \<and>
   (\<exists>ws zs. written (snd (ReadLoggingConfig readonly_env [''file'', ''console'']
                ''data/log'' example_cfg (init_state example_env))) =
      ws @
      [(NewFilter (FormatLogger LogfmtLogger Stderr) AllowInfo,
        [LevelKeyV, LevelV ErrorValue, StrV ''Failed to create directory'', StrV ''dpath'',
         StrV ''logs'', StrV ''err'', ErrV (Errorf ''permission denied'')])] @ zs)"
proof -
  have h1: "TrimSpace readonly_env ''file'' = ''file''"
    by (simp add: readonly_env_def example_env_def)
  have h2: "GetSectionErr example_cfg ''log.file'' = None"
    by (simp add: example_cfg_def)
  have h3: "''data/log/grafana.log'' =
            MustString (KeyString example_cfg ''log.file'' ''file_name'')
              (FilepathJoin readonly_env ''data/log'' ''grafana.log'')"
    by (simp add: MustString_def example_cfg_def readonly_env_def example_env_def)
  have h4: "LogfmtLogger =
            getLogFormat readonly_env (MustString (KeyString example_cfg ''log.file'' ''format'') [])"
    by (simp add: MustString_def example_cfg_def getLogFormat_def)
  have h5: "MkdirAll readonly_env (FilepathDir readonly_env ''data/log/grafana.log'') \<noteq> None"
    by (simp add: readonly_env_def example_env_def)
  have h6: "fst (Close readonly_env (init_state example_env)) = None"
    by (simp add: Close_def init_state_def)
  have h7: "list_all (known_mode readonly_env example_cfg) [''console'']"
    by (simp add: known_mode_def readonly_env_def example_env_def example_cfg_def)
  have h8: "wf_registry (init_state example_env)"
    by (simp add: wf_registry_def init_state_def)
  have v: "sink_of_mode readonly_env ''data/log'' example_cfg ''console'' =
           Some (FormatLogger LogfmtLogger Stdout)"
    by (simp add: sink_of_mode_def Let_def MustString_def getLogFormat_def
        readonly_env_def example_env_def example_cfg_def)
  have d: "FilepathDir readonly_env ''data/log/grafana.log'' = ''logs''"
    "MkdirAll readonly_env ''logs'' = Some (Errorf ''permission denied'')"
    "FileInit readonly_env w = None"
    "concrete (root (init_state example_env)) = 0"
    "logger (heap (init_state example_env) ! 0) =
       NewFilter (FormatLogger LogfmtLogger Stderr) AllowInfo"
    "ctx (heap (init_state example_env) ! 0) = []"
    "written (init_state example_env) = []" for w
    by (simp_all add: readonly_env_def example_env_def init_state_def newConcreteLogger_def
        getLogFormat_def)
  note t = failed_file_sink_is_skipped[OF h1 h2 h3 h4 disjI1[OF h5],
      of "[]" "[''console'']" "init_state example_env"]
  have a: "fst (ReadLoggingConfig readonly_env [''console''] ''data/log'' example_cfg
                  (init_state example_env)) =
           fst (ReadLoggingConfig readonly_env [''file'', ''console''] ''data/log'' example_cfg
                  (init_state example_env))"
    using t by simp
  have b: "\<exists>ws zs. written (snd (ReadLoggingConfig readonly_env [''file'', ''console'']
                ''data/log'' example_cfg (init_state example_env))) =
      ws @
      [(NewFilter (FormatLogger LogfmtLogger Stderr) AllowInfo,
        [LevelKeyV, LevelV ErrorValue, StrV ''Failed to create directory'', StrV ''dpath'',
         StrV ''logs'', StrV ''err'', ErrV (Errorf ''permission denied'')])] @ zs"
    using t h6 by (auto simp: d)
  have c: "fst (ReadLoggingConfig readonly_env [''file'', ''console''] ''data/log'' example_cfg
                  (init_state example_env)) = Returned None \<and>
           map val (logFilters (root (snd (ReadLoggingConfig readonly_env [''file'', ''console'']
             ''data/log'' example_cfg (init_state example_env))))) =
             [FormatLogger LogfmtLogger Stdout] \<and>
           logger (heap (snd (ReadLoggingConfig readonly_env [''file'', ''console'']
             ''data/log'' example_cfg (init_state example_env))) ! 0) =
             With (CompositeLogger
               (map (\<lambda>lw. NewFilter (val lw) (maxLevel lw))
                (logFilters (root (snd (ReadLoggingConfig readonly_env [''file'', ''console'']
                   ''data/log'' example_cfg (init_state example_env))))))) []"
    using t h6 h7 h8 by (simp add: v d)
  show ?thesis
    using h1 h2 h5 h6 h7 h8 a b c by (simp add: v)
qed

subsection \<open>A mode without a section\<close>






lemma configured_console_after_failed_file:
  "map val (logFilters (root (snd (ReadLoggingConfig readonly_env [''file'', ''console'']
       ''data/log'' example_cfg (init_state example_env))))) =
   [FormatLogger LogfmtLogger Stdout]"
  by (simp add: ReadLoggingConfig_def Close_def init_state_def newConcreteLogger_def
      getLogFormat_def getLogLevelFromConfig_def getLogLevelFromString_def logLevels_def
      getFilters_def MustString_def modeLoopBody_def appendHandler_def
      level_Error_Log_def logManager_Log_def ConcreteLogger_Log_def
      initialize_root
      readonly_env_def example_env_def example_cfg_def Let_def)

subsection \<open>Further facts\<close>

text \<open>Every state reached from the initial one by registry operations is well formed.\<close>

lemma reachable_wf_registry: "wf_registry (fold run_op ops (init_state E))"
  by (rule fold_run_op_wf[OF init_state_wf])

text \<open>
  What \<^verbatim>\<open>ConcreteLogger.New\<close> hands to \<^verbatim>\<open>root.New\<close>: pairs of its own context, none with the
  key \<^verbatim>\<open>"logger"\<close>, followed by the arguments of the call.
\<close>

lemma derive_passes_no_logger_pair:
  "\<exists>keyvals s1. ConcreteLogger_New cl cx s = logManager_New (keyvals @ cx) s1 \<and>
                 \<not> has_logger_key keyvals"
  using keyvals_loop_no_logger[of "[]"] by (auto simp: Derive_unfold Let_def)

text \<open>
  With a file handler that fails to close and to reload: \<^verbatim>\<open>Close\<close> still closes the syslog
  handler after it and returns the file handler's error; \<^verbatim>\<open>Reload\<close> returns at the file
  handler and never reaches the syslog handler.
\<close>

lemma Close_example:
  "Close stuck_env handlers_state =
     (Some (Errorf ''file already closed''),
      handlers_state\<lparr>loggersToClose := [],
        calls := [CloseCall (FileHandler file_writer), CloseCall syslog_handler]\<rparr>)"
  by (simp add: Close_def handlers_state_def stuck_env_def example_env_def init_state_def
      syslog_handler_def Let_def)

lemma Reload_example:
  "Reload stuck_env handlers_state =
     (Some (Errorf ''rotation stuck''),
      handlers_state\<lparr>calls := [ReloadCall (FileHandler file_writer)]\<rparr>)"
  by (simp add: Reload_def handlers_state_def stuck_env_def example_env_def init_state_def
      syslog_handler_def)

end
